theory Spec2Isabelle
  imports Main
begin

section \<open>Python string operations used by the builder\<close>

text \<open>
  Strings are lists of characters. The builder's own text is ASCII; the
  characters of a Python \<open>str\<close> are modelled by \<^typ>\<open>char\<close>, so the model covers
  code points below 256.
\<close>

text \<open>\<open>s.startswith(p)\<close>.\<close>

fun startswith :: "string \<Rightarrow> string \<Rightarrow> bool" where
  "startswith s [] = True"
| "startswith [] (p # ps) = False"
| "startswith (c # cs) (p # ps) = (c = p \<and> startswith cs ps)"

text \<open>\<open>p in s\<close> for strings: \<open>p\<close> occurs somewhere in \<open>s\<close>.\<close>

fun occurs :: "string \<Rightarrow> string \<Rightarrow> bool" where
  "occurs p [] = (p = [])"
| "occurs p (c # cs) = (startswith (c # cs) p \<or> occurs p cs)"

text \<open>
  \<open>s.replace(old, new)\<close>: the occurrences of \<open>old\<close> are found from left to right,
  without overlap, and the inserted text is not scanned again. The auxiliary
  function is the scan for a non-empty \<open>old\<close>; for the empty \<open>old\<close> Python puts
  \<open>new\<close> before every character and at the end.
\<close>

fun replace_ne :: "string \<Rightarrow> string \<Rightarrow> string \<Rightarrow> string" where
  "replace_ne old new [] = []"
| "replace_ne old new (c # cs) =
     (if startswith (c # cs) old then new @ replace_ne old new (drop (length old - 1) cs)
      else c # replace_ne old new cs)"

definition replace :: "string \<Rightarrow> string \<Rightarrow> string \<Rightarrow> string" where
  "replace old new s =
     (if old = [] then new @ concat (map (\<lambda>c. c # new) s) else replace_ne old new s)"

text \<open>\<open>str(n)\<close> for an integer: decimal digits, with a leading minus sign.\<close>

definition digit_char :: "nat \<Rightarrow> char" where
  "digit_char d = ''0123456789'' ! d"

fun str_nat :: "nat \<Rightarrow> string" where
  "str_nat n =
     (if n < 10 then [digit_char n] else str_nat (n div 10) @ [digit_char (n mod 10)])"

definition str_int :: "int \<Rightarrow> string" where
  "str_int i = (if i < 0 then CHR ''-'' # str_nat (nat (- i)) else str_nat (nat i))"

text \<open>
  \<open>s.splitlines()\<close>: the line boundaries among the code points below 256 are
  LF, VT, FF, CR, FS, GS, RS and NEL, and CR LF counts as one boundary. The
  boundaries are dropped and a boundary at the very end opens no further line.
\<close>

definition is_linebreak :: "char \<Rightarrow> bool" where
  "is_linebreak c =
     (c = CHR 0x0A \<or> c = CHR 0x0B \<or> c = CHR 0x0C \<or> c = CHR 0x0D \<or>
      c = CHR 0x1C \<or> c = CHR 0x1D \<or> c = CHR 0x1E \<or> c = CHR 0x85)"

fun splitlines :: "string \<Rightarrow> string list" where
  "splitlines [] = []"
| "splitlines [c] = (if is_linebreak c then [[]] else [[c]])"
| "splitlines (c # d # cs) =
     (if c = CHR 0x0D \<and> d = CHR 0x0A then [] # splitlines cs
      else if is_linebreak c then [] # splitlines (d # cs)
      else (case splitlines (d # cs) of
              [] \<Rightarrow> [[c]]
            | l # ls \<Rightarrow> (c # l) # ls))"

text \<open>\<open>sep.join(xs)\<close>.\<close>

fun join :: "string \<Rightarrow> string list \<Rightarrow> string" where
  "join sep [] = []"
| "join sep [x] = x"
| "join sep (x # y # ys) = x @ sep @ join sep (y # ys)"

text \<open>\<open>s.split("[")[0]\<close>: the text before the first opening bracket.\<close>

definition split_bracket_first :: "string \<Rightarrow> string" where
  "split_bracket_first s = takeWhile (\<lambda>c. c \<noteq> CHR ''['') s"

text \<open>\<open>s[0:-k]\<close>: the string without its last \<open>k\<close> characters (empty when shorter).\<close>

definition drop_last :: "nat \<Rightarrow> string \<Rightarrow> string" where
  "drop_last k s = take (length s - k) s"

section \<open>Distributions\<close>

text \<open>
  A distribution parameter is any Python value that is rendered with \<open>str\<close>.
  The model has the two kinds whose rendering is exact text: integers and
  strings (the name of another node, or an expression). Floats are left out.
\<close>

datatype pyval = PyInt int | PyStr string

fun py_str :: "pyval \<Rightarrow> string" where
  "py_str (PyInt i) = str_int i"
| "py_str (PyStr s) = s"

datatype error = AttributeError | AssertionError | KeyError

subsection \<open>Uniform\<close>

definition Uniform_insert_parameters :: "pyval \<Rightarrow> pyval \<Rightarrow> string \<Rightarrow> string" where
  "Uniform_insert_parameters a b s =
     replace ''{b}'' (py_str b) (replace ''{a}'' (py_str a) s)"

definition Uniform_from_prior :: "pyval \<Rightarrow> pyval \<Rightarrow> string" where
  "Uniform_from_prior a b =
     Uniform_insert_parameters a b ''{x} = {a} + ({b} - ({a}))*rng.rand();\<newline>''"

definition Uniform_perturb :: "pyval \<Rightarrow> pyval \<Rightarrow> string" where
  "Uniform_perturb a b =
     Uniform_insert_parameters a b
       (''{x} += ({b} - ({a}))*rng.randh();\<newline>'' @
        ''wrap({x}, {a}, {b});\<newline>'')"

definition Uniform_log_density :: "pyval \<Rightarrow> pyval \<Rightarrow> string" where
  "Uniform_log_density a b =
     Uniform_insert_parameters a b
       (''if({x} < ({a}) || {x} > ({b}))\<newline>'' @
        ''    logp = -numeric_limits<double>::max();\<newline>'' @
        ''logp += -log({b} - ({a}));\<newline>'')"

subsection \<open>LogUniform\<close>

definition LogUniform_insert_parameters :: "pyval \<Rightarrow> pyval \<Rightarrow> string \<Rightarrow> string" where
  "LogUniform_insert_parameters a b s =
     replace ''{b}'' (py_str b) (replace ''{a}'' (py_str a) s)"

definition LogUniform_from_prior :: "pyval \<Rightarrow> pyval \<Rightarrow> string" where
  "LogUniform_from_prior a b =
     LogUniform_insert_parameters a b
       ''{x} = exp(log({a}) + log(({b})/({a}))*rng.rand());\<newline>''"

definition LogUniform_perturb :: "pyval \<Rightarrow> pyval \<Rightarrow> string" where
  "LogUniform_perturb a b =
     LogUniform_insert_parameters a b
       (''{x} = log({x});\<newline>'' @
        ''{x} += log(({b})/({a}))*rng.randh();\<newline>'' @
        ''wrap({x}, log({a}), log({b}));\<newline>'' @
        ''{x} = exp({x});\<newline>'')"

definition LogUniform_log_density :: "pyval \<Rightarrow> pyval \<Rightarrow> string" where
  "LogUniform_log_density a b =
     LogUniform_insert_parameters a b
       (''if({x} < ({a}) || {x} > ({b}))\<newline>'' @
        ''    logp = -numeric_limits<double>::max();\<newline>'' @
        ''logp += -log({x}) - log(({b})/({a}));\<newline>'')"

subsection \<open>Normal\<close>

definition Normal_insert_parameters :: "pyval \<Rightarrow> pyval \<Rightarrow> string \<Rightarrow> string" where
  "Normal_insert_parameters mu sigma s =
     replace ''{sigma}'' (py_str sigma) (replace ''{mu}'' (py_str mu) s)"

definition Normal_from_prior :: "pyval \<Rightarrow> pyval \<Rightarrow> string" where
  "Normal_from_prior mu sigma =
     Normal_insert_parameters mu sigma ''{x} = {mu} + {sigma}*rng.randn();\<newline>''"

definition Normal_perturb :: "pyval \<Rightarrow> pyval \<Rightarrow> string" where
  "Normal_perturb mu sigma =
     Normal_insert_parameters mu sigma
       (''log_H -= -0.5*pow((({x}) - ({mu}))/({sigma}), 2);\<newline>'' @
        ''{x} += ({sigma})*rng.randh();\<newline>'' @
        ''log_H += -0.5*pow((({x}) - ({mu}))/({sigma}), 2);\<newline>'')"

definition Normal_log_density :: "pyval \<Rightarrow> pyval \<Rightarrow> string" where
  "Normal_log_density mu sigma =
     Normal_insert_parameters mu sigma
       (''logp += -0.5*log(2*M_PI) - log({sigma}) '' @
        ''- 0.5*pow((({x}) - ({mu}))/({sigma}), 2);\<newline>'')"

subsection \<open>Deterministic\<close>

definition Deterministic_from_prior :: "string \<Rightarrow> string" where
  "Deterministic_from_prior formula = replace ''{formula}'' formula ''{x} = {formula};\<newline>''"

definition Deterministic_perturb :: "string \<Rightarrow> string" where
  "Deterministic_perturb formula = Deterministic_from_prior formula"

subsection \<open>Dispatch on the class of the prior\<close>

datatype distribution =
    Uniform pyval pyval
  | LogUniform pyval pyval
  | Normal pyval pyval
  | Deterministic string

fun dist_from_prior :: "distribution \<Rightarrow> string" where
  "dist_from_prior (Uniform a b) = Uniform_from_prior a b"
| "dist_from_prior (LogUniform a b) = LogUniform_from_prior a b"
| "dist_from_prior (Normal mu sigma) = Normal_from_prior mu sigma"
| "dist_from_prior (Deterministic formula) = Deterministic_from_prior formula"

fun dist_perturb :: "distribution \<Rightarrow> string" where
  "dist_perturb (Uniform a b) = Uniform_perturb a b"
| "dist_perturb (LogUniform a b) = LogUniform_perturb a b"
| "dist_perturb (Normal mu sigma) = Normal_perturb mu sigma"
| "dist_perturb (Deterministic formula) = Deterministic_perturb formula"

text \<open>The class Deterministic has no method \<open>log_density\<close>: the call raises.\<close>

fun dist_log_density :: "distribution \<Rightarrow> error + string" where
  "dist_log_density (Uniform a b) = Inr (Uniform_log_density a b)"
| "dist_log_density (LogUniform a b) = Inr (LogUniform_log_density a b)"
| "dist_log_density (Normal mu sigma) = Inr (Normal_log_density mu sigma)"
| "dist_log_density (Deterministic formula) = Inl AttributeError"

section \<open>Nodes\<close>

datatype NodeType = coordinate | derived | data | prior_info

text \<open>The element type handed to a node: Python's \<open>int\<close> or \<open>float\<close>.\<close>

datatype dtype = py_int | py_float

record node =
  dtype :: dtype
  name :: string
  index :: int
  prior :: "distribution option"
  node_type :: NodeType

text \<open>
  \<open>Node.__init__\<close>: an index above zero is appended to the name in brackets;
  the assertion on a prior-info node raises when the prior is not \<open>None\<close>.
\<close>

definition Node_init ::
  "dtype \<Rightarrow> string \<Rightarrow> distribution option \<Rightarrow> NodeType \<Rightarrow> int \<Rightarrow> error + node" where
  "Node_init dt nm pr nt idx =
     (let nm' = (if idx > 0 then nm @ ''['' @ str_int idx @ '']'' else nm) in
      if nt = prior_info \<and> pr \<noteq> None then Inl AssertionError
      else Inr \<lparr>dtype = dt, name = nm', index = idx, prior = pr, node_type = nt\<rparr>)"

text \<open>
  The three delegating methods. With \<open>prior = None\<close> the attribute lookup on
  \<open>None\<close> raises.
\<close>

definition Node_from_prior :: "node \<Rightarrow> error + string" where
  "Node_from_prior n =
     (case prior n of
        None \<Rightarrow> Inl AttributeError
      | Some d \<Rightarrow> Inr (replace ''{x}'' (name n) (dist_from_prior d)))"

definition Node_perturb :: "node \<Rightarrow> error + string" where
  "Node_perturb n =
     (case prior n of
        None \<Rightarrow> Inl AttributeError
      | Some d \<Rightarrow> Inr (replace ''{x}'' (name n) (dist_perturb d)))"

definition Node_log_density :: "node \<Rightarrow> error + string" where
  "Node_log_density n =
     (case prior n of
        None \<Rightarrow> Inl AttributeError
      | Some d \<Rightarrow>
          (case dist_log_density d of
             Inl e \<Rightarrow> Inl e
           | Inr s \<Rightarrow> Inr (replace ''{x}'' (name n) s)))"

definition Node_str :: "node \<Rightarrow> string" where
  "Node_str n = name n"

section \<open>The model\<close>

text \<open>
  The registry is an \<open>OrderedDict\<close> from names to nodes: a list of entries in
  insertion order. A loop \<open>for name in self.nodes: node = self.nodes[name]\<close>
  visits the entries of this list from left to right.
\<close>

type_synonym model = "(string \<times> node) list"

definition Model_init :: model where
  "Model_init = []"

text \<open>
  \<open>d[k] = v\<close> on an ordered dictionary: an existing key keeps its place and
  gets the new value, a new key goes to the end.
\<close>

fun dict_set :: "model \<Rightarrow> string \<Rightarrow> node \<Rightarrow> model" where
  "dict_set [] k v = [(k, v)]"
| "dict_set ((k', v') # rest) k v =
     (if k' = k then (k, v) # rest else (k', v') # dict_set rest k v)"

definition add_node :: "model \<Rightarrow> node \<Rightarrow> model" where
  "add_node m n = dict_set m (name n) n"

text \<open>
  In the two loops below the double quote of the emitted C++ text is written
  \<open>CHR 0x22\<close>.
\<close>

text \<open>
  The loop shared by \<open>from_prior\<close> and \<open>perturb\<close>: the fragment of every node
  of the given role is appended to \<open>s\<close>.
\<close>

fun from_prior_loop :: "NodeType \<Rightarrow> model \<Rightarrow> string \<Rightarrow> error + string" where
  "from_prior_loop t [] s = Inr s"
| "from_prior_loop t ((nm, nd) # rest) s =
     (if node_type nd = t then
        (case Node_from_prior nd of
           Inl e \<Rightarrow> Inl e
         | Inr f \<Rightarrow> from_prior_loop t rest (s @ f))
      else from_prior_loop t rest s)"

definition Model_from_prior :: "model \<Rightarrow> error + string" where
  "Model_from_prior m =
     (case from_prior_loop coordinate m [] of
        Inl e \<Rightarrow> Inl e
      | Inr s \<Rightarrow> from_prior_loop derived m s)"

text \<open>
  \<open>"\n".join(["    " + x for x in f.splitlines()])\<close>: every line of a
  fragment indented by four spaces, the lines joined by newlines.
\<close>

definition indent_lines :: "string \<Rightarrow> string" where
  "indent_lines f = join ''\<newline>'' (map (\<lambda>x. ''    '' @ x) (splitlines f))"

fun count_coords :: "model \<Rightarrow> nat \<Rightarrow> nat" where
  "count_coords [] num_coords = num_coords"
| "count_coords ((nm, nd) # rest) num_coords =
     (if node_type nd = coordinate then count_coords rest (num_coords + 1)
      else count_coords rest num_coords)"

fun perturb_loop :: "model \<Rightarrow> nat \<Rightarrow> string \<Rightarrow> error + string" where
  "perturb_loop [] k s = Inr s"
| "perturb_loop ((nm, nd) # rest) k s =
     (if node_type nd = coordinate then
        (case Node_perturb nd of
           Inl e \<Rightarrow> Inl e
         | Inr f \<Rightarrow>
             perturb_loop rest (k + 1)
               (s @ replace ''{k}'' (str_nat k) ''if(which == {k})\<newline>{\<newline>'' @
                indent_lines f @
                ''\<newline>}\<newline>''))
      else perturb_loop rest k s)"

definition Model_perturb :: "model \<Rightarrow> error + string" where
  "Model_perturb m =
     (let num_coords = count_coords m 0;
          s = ''double log_H = 0.0;\<newline>'' @
              replace ''{n}'' (str_nat num_coords) ''int which = rng.rand_int({n});\<newline>''
      in case perturb_loop m 0 s of
           Inl e \<Rightarrow> Inl e
         | Inr s1 \<Rightarrow>
             (case from_prior_loop derived m s1 of
                Inl e \<Rightarrow> Inl e
              | Inr s2 \<Rightarrow> Inr (s2 @ ''return log_H;\<newline>'')))"

fun print_loop :: "model \<Rightarrow> string \<Rightarrow> string" where
  "print_loop [] s = s"
| "print_loop ((nm, nd) # rest) s =
     (if node_type nd = coordinate
      then print_loop rest (s @ ''out<<'' @ Node_str nd @ ''<<'' @ [CHR 0x22] @ '' '' @ [CHR 0x22] @ '';\<newline>'')
      else print_loop rest s)"

definition Model_print_code :: "model \<Rightarrow> string" where
  "Model_print_code m = print_loop m []"

fun description_loop :: "model \<Rightarrow> string \<Rightarrow> string" where
  "description_loop [] s = s"
| "description_loop ((nm, nd) # rest) s =
     (if node_type nd = coordinate
      then description_loop rest
             (s @ ''s += '' @ [CHR 0x22] @ Node_str nd @ '', '' @ [CHR 0x22] @ '';\<newline>'')
      else description_loop rest s)"

definition Model_description :: "model \<Rightarrow> string" where
  "Model_description m =
     (let s = description_loop m ''string s;\<newline>'';
          s = drop_last 5 s
      in s @ ([CHR 0x22] @ '';'') @ ''\<newline>return s;'')"

fun log_likelihood_loop :: "model \<Rightarrow> string \<Rightarrow> error + string" where
  "log_likelihood_loop [] s = Inr s"
| "log_likelihood_loop ((nm, nd) # rest) s =
     (if node_type nd = data then
        (case Node_log_density nd of
           Inl e \<Rightarrow> Inl e
         | Inr f \<Rightarrow> log_likelihood_loop rest (s @ f))
      else log_likelihood_loop rest s)"

definition Model_log_likelihood :: "model \<Rightarrow> error + string" where
  "Model_log_likelihood m =
     (case log_likelihood_loop m ''double logp = 0.0;\<newline>\<newline>'' of
        Inl e \<Rightarrow> Inl e
      | Inr s \<Rightarrow> Inr (s @ ''\<newline>return logp;''))"

subsection \<open>Grouping queries\<close>

fun vector_names_loop :: "NodeType \<Rightarrow> model \<Rightarrow> string set \<Rightarrow> string set" where
  "vector_names_loop t [] vecs = vecs"
| "vector_names_loop t ((nm, nd) # rest) vecs =
     (if node_type nd = t \<and> index nd \<noteq> 0
      then vector_names_loop t rest (insert (split_bracket_first nm) vecs)
      else vector_names_loop t rest vecs)"

definition get_vector_names :: "model \<Rightarrow> NodeType \<Rightarrow> string set" where
  "get_vector_names m t = vector_names_loop t m {}"

fun scalar_names_loop :: "NodeType \<Rightarrow> string set \<Rightarrow> model \<Rightarrow> string set \<Rightarrow> string set" where
  "scalar_names_loop t vecs [] scalars = scalars"
| "scalar_names_loop t vecs ((nm, nd) # rest) scalars =
     (if node_type nd = t \<and> split_bracket_first (name nd) \<notin> vecs
      then scalar_names_loop t vecs rest (insert (name nd) scalars)
      else scalar_names_loop t vecs rest scalars)"

definition get_scalar_names :: "model \<Rightarrow> NodeType \<Rightarrow> string set" where
  "get_scalar_names m t = scalar_names_loop t (get_vector_names m t) m {}"

fun vector_size_loop :: "string \<Rightarrow> model \<Rightarrow> nat \<Rightarrow> nat" where
  "vector_size_loop vector_name [] count = count"
| "vector_size_loop vector_name ((nm, nd) # rest) count =
     (if nm = vector_name then vector_size_loop vector_name rest (count + 1)
      else vector_size_loop vector_name rest count)"

definition get_vector_size :: "model \<Rightarrow> string \<Rightarrow> nat" where
  "get_vector_size m vector_name = vector_size_loop vector_name m 0"

section \<open>The method bodies as programs on the object state\<close>

text \<open>
  The state of a model object is its dictionary \<open>self.nodes\<close>. A program
  takes the state and gives its result together with the state it leaves
  behind. There are three operations on the dictionary: iterating over it
  takes its keys, \<open>d[k]\<close> reads an entry (and raises for a missing key),
  \<open>d[k] = v\<close> writes one.
\<close>

definition nodes_keys :: "model \<Rightarrow> string list \<times> model" where
  "nodes_keys h = (map fst h, h)"

definition nodes_getitem :: "string \<Rightarrow> model \<Rightarrow> (error + node) \<times> model" where
  "nodes_getitem k h = (case map_of h k of None \<Rightarrow> Inl KeyError | Some v \<Rightarrow> Inr v, h)"

definition nodes_setitem :: "string \<Rightarrow> node \<Rightarrow> model \<Rightarrow> unit \<times> model" where
  "nodes_setitem k v h = ((), dict_set h k v)"

text \<open>\<open>add_node\<close> is the one method that writes.\<close>

definition add_node_call :: "node \<Rightarrow> model \<Rightarrow> unit \<times> model" where
  "add_node_call n h = nodes_setitem (name n) n h"

text \<open>
  The loops \<open>for name in self.nodes: node = self.nodes[name]; ...\<close> of the
  passes, over the keys taken at the start of the loop; the local variables
  are arguments.
\<close>

fun from_prior_for ::
  "NodeType \<Rightarrow> string list \<Rightarrow> string \<Rightarrow> model \<Rightarrow> (error + string) \<times> model" where
  "from_prior_for t [] s h = (Inr s, h)"
| "from_prior_for t (nm # names) s h =
     (case nodes_getitem nm h of
        (Inl e, h') \<Rightarrow> (Inl e, h')
      | (Inr nd, h') \<Rightarrow>
          (if node_type nd = t then
             (case Node_from_prior nd of
                Inl e \<Rightarrow> (Inl e, h')
              | Inr f \<Rightarrow> from_prior_for t names (s @ f) h')
           else from_prior_for t names s h'))"

fun count_coords_for :: "string list \<Rightarrow> nat \<Rightarrow> model \<Rightarrow> (error + nat) \<times> model" where
  "count_coords_for [] num_coords h = (Inr num_coords, h)"
| "count_coords_for (nm # names) num_coords h =
     (case nodes_getitem nm h of
        (Inl e, h') \<Rightarrow> (Inl e, h')
      | (Inr nd, h') \<Rightarrow>
          (if node_type nd = coordinate then count_coords_for names (num_coords + 1) h'
           else count_coords_for names num_coords h'))"

fun perturb_for ::
  "string list \<Rightarrow> nat \<Rightarrow> string \<Rightarrow> model \<Rightarrow> (error + string) \<times> model" where
  "perturb_for [] k s h = (Inr s, h)"
| "perturb_for (nm # names) k s h =
     (case nodes_getitem nm h of
        (Inl e, h') \<Rightarrow> (Inl e, h')
      | (Inr nd, h') \<Rightarrow>
          (if node_type nd = coordinate then
             (case Node_perturb nd of
                Inl e \<Rightarrow> (Inl e, h')
              | Inr f \<Rightarrow>
                  perturb_for names (k + 1)
                    (s @ replace ''{k}'' (str_nat k) ''if(which == {k})\<newline>{\<newline>'' @
                     indent_lines f @
                     ''\<newline>}\<newline>'') h')
           else perturb_for names k s h'))"

fun print_for :: "string list \<Rightarrow> string \<Rightarrow> model \<Rightarrow> (error + string) \<times> model" where
  "print_for [] s h = (Inr s, h)"
| "print_for (nm # names) s h =
     (case nodes_getitem nm h of
        (Inl e, h') \<Rightarrow> (Inl e, h')
      | (Inr nd, h') \<Rightarrow>
          (if node_type nd = coordinate
           then print_for names
                  (s @ ''out<<'' @ Node_str nd @ ''<<'' @ [CHR 0x22] @ '' '' @ [CHR 0x22] @
                   '';\<newline>'') h'
           else print_for names s h'))"

fun description_for :: "string list \<Rightarrow> string \<Rightarrow> model \<Rightarrow> (error + string) \<times> model" where
  "description_for [] s h = (Inr s, h)"
| "description_for (nm # names) s h =
     (case nodes_getitem nm h of
        (Inl e, h') \<Rightarrow> (Inl e, h')
      | (Inr nd, h') \<Rightarrow>
          (if node_type nd = coordinate
           then description_for names
                  (s @ ''s += '' @ [CHR 0x22] @ Node_str nd @ '', '' @ [CHR 0x22] @
                   '';\<newline>'') h'
           else description_for names s h'))"

fun log_likelihood_for ::
  "string list \<Rightarrow> string \<Rightarrow> model \<Rightarrow> (error + string) \<times> model" where
  "log_likelihood_for [] s h = (Inr s, h)"
| "log_likelihood_for (nm # names) s h =
     (case nodes_getitem nm h of
        (Inl e, h') \<Rightarrow> (Inl e, h')
      | (Inr nd, h') \<Rightarrow>
          (if node_type nd = data then
             (case Node_log_density nd of
                Inl e \<Rightarrow> (Inl e, h')
              | Inr f \<Rightarrow> log_likelihood_for names (s @ f) h')
           else log_likelihood_for names s h'))"

text \<open>The five passes, statement by statement.\<close>

definition Model_from_prior_call :: "model \<Rightarrow> (error + string) \<times> model" where
  "Model_from_prior_call h =
     (case nodes_keys h of
        (names, h1) \<Rightarrow>
          (case from_prior_for coordinate names [] h1 of
             (Inl e, h2) \<Rightarrow> (Inl e, h2)
           | (Inr s, h2) \<Rightarrow>
               (case nodes_keys h2 of
                  (names', h3) \<Rightarrow> from_prior_for derived names' s h3)))"

definition Model_perturb_call :: "model \<Rightarrow> (error + string) \<times> model" where
  "Model_perturb_call h =
     (case nodes_keys h of
        (names, h1) \<Rightarrow>
          (case count_coords_for names 0 h1 of
             (Inl e, h2) \<Rightarrow> (Inl e, h2)
           | (Inr num_coords, h2) \<Rightarrow>
               (let s = ''double log_H = 0.0;\<newline>'' @
                        replace ''{n}'' (str_nat num_coords)
                          ''int which = rng.rand_int({n});\<newline>''
                in case nodes_keys h2 of
                     (names', h3) \<Rightarrow>
                       (case perturb_for names' 0 s h3 of
                          (Inl e, h4) \<Rightarrow> (Inl e, h4)
                        | (Inr s1, h4) \<Rightarrow>
                            (case nodes_keys h4 of
                               (names'', h5) \<Rightarrow>
                                 (case from_prior_for derived names'' s1 h5 of
                                    (Inl e, h6) \<Rightarrow> (Inl e, h6)
                                  | (Inr s2, h6) \<Rightarrow>
                                      (Inr (s2 @ ''return log_H;\<newline>''), h6)))))))"

definition Model_print_code_call :: "model \<Rightarrow> (error + string) \<times> model" where
  "Model_print_code_call h =
     (case nodes_keys h of (names, h1) \<Rightarrow> print_for names [] h1)"

definition Model_description_call :: "model \<Rightarrow> (error + string) \<times> model" where
  "Model_description_call h =
     (case nodes_keys h of
        (names, h1) \<Rightarrow>
          (case description_for names ''string s;\<newline>'' h1 of
             (Inl e, h2) \<Rightarrow> (Inl e, h2)
           | (Inr s, h2) \<Rightarrow>
               (Inr (drop_last 5 s @ ([CHR 0x22] @ '';'') @ ''\<newline>return s;''), h2)))"

definition Model_log_likelihood_call :: "model \<Rightarrow> (error + string) \<times> model" where
  "Model_log_likelihood_call h =
     (case nodes_keys h of
        (names, h1) \<Rightarrow>
          (case log_likelihood_for names ''double logp = 0.0;\<newline>\<newline>'' h1 of
             (Inl e, h2) \<Rightarrow> (Inl e, h2)
           | (Inr s, h2) \<Rightarrow> (Inr (s @ ''\<newline>return logp;''), h2)))"

text \<open>
  A call of a pass on a model object, and the calls of a list of passes one
  after the other on the same object: each call starts in the state the call
  before it left.
\<close>

datatype pass = from_prior_pass | perturb_pass | print_code_pass | description_pass
  | log_likelihood_pass

fun call :: "pass \<Rightarrow> model \<Rightarrow> (error + string) \<times> model" where
  "call from_prior_pass h = Model_from_prior_call h"
| "call perturb_pass h = Model_perturb_call h"
| "call print_code_pass h = Model_print_code_call h"
| "call description_pass h = Model_description_call h"
| "call log_likelihood_pass h = Model_log_likelihood_call h"

fun run :: "pass list \<Rightarrow> model \<Rightarrow> (error + string) list \<times> model" where
  "run [] h = ([], h)"
| "run (p # ps) h =
     (case call p h of (r, h') \<Rightarrow> (case run ps h' of (rs, h'') \<Rightarrow> (r # rs, h'')))"

text \<open>
  The pure functions of the section before, as results of calls: \<open>print_code\<close>
  and \<open>description\<close> have no raising statement of their own.
\<close>

fun pass_result :: "pass \<Rightarrow> model \<Rightarrow> error + string" where
  "pass_result from_prior_pass m = Model_from_prior m"
| "pass_result perturb_pass m = Model_perturb m"
| "pass_result print_code_pass m = Inr (Model_print_code m)"
| "pass_result description_pass m = Inr (Model_description m)"
| "pass_result log_likelihood_pass m = Model_log_likelihood m"

section \<open>The passes as the specification words them\<close>

text \<open>
  The nodes of one role, in registration order, and the fragments of a list of
  nodes: the fragments are asked for in order and the first call that raises
  ends the pass.
\<close>

definition nodes_of_role :: "NodeType \<Rightarrow> model \<Rightarrow> node list" where
  "nodes_of_role t m = filter (\<lambda>n. node_type n = t) (map snd m)"

fun collect :: "(error + string) list \<Rightarrow> error + string list" where
  "collect [] = Inr []"
| "collect (Inl e # rs) = Inl e"
| "collect (Inr f # rs) = (case collect rs of Inl e \<Rightarrow> Inl e | Inr fs \<Rightarrow> Inr (f # fs))"

text \<open>
  from_prior pass: the fragments of the coordinate nodes, then those of the
  derived nodes.
\<close>

definition spec_from_prior :: "model \<Rightarrow> error + string" where
  "spec_from_prior m =
     (case collect (map Node_from_prior
                      (nodes_of_role coordinate m @ nodes_of_role derived m)) of
        Inl e \<Rightarrow> Inl e
      | Inr fs \<Rightarrow> Inr (concat fs))"

text \<open>
  perturb pass: the declaration of \<open>log_H\<close>, the draw over the number of
  coordinate nodes, one conditional block per coordinate node in order (its
  fragment inside, every line indented by four spaces), the fragments of the
  derived nodes, the return.
\<close>

definition perturb_block :: "nat \<Rightarrow> string \<Rightarrow> string" where
  "perturb_block k f =
     ''if(which == '' @ str_nat k @ '')\<newline>{\<newline>'' @
     indent_lines f @
     ''\<newline>}\<newline>''"

definition spec_perturb :: "model \<Rightarrow> error + string" where
  "spec_perturb m =
     (case collect (map Node_perturb (nodes_of_role coordinate m)) of
        Inl e \<Rightarrow> Inl e
      | Inr ps \<Rightarrow>
          (case collect (map Node_from_prior (nodes_of_role derived m)) of
             Inl e \<Rightarrow> Inl e
           | Inr ds \<Rightarrow>
               Inr (''double log_H = 0.0;\<newline>'' @
                    ''int which = rng.rand_int('' @
                      str_nat (length (nodes_of_role coordinate m)) @ '');\<newline>'' @
                    concat (map2 perturb_block [0..<length ps] ps) @
                    concat ds @
                    ''return log_H;\<newline>'')))"

text \<open>
  log_likelihood pass: the accumulator set to zero, the density fragments of
  the data nodes, the return.
\<close>

definition spec_log_likelihood :: "model \<Rightarrow> error + string" where
  "spec_log_likelihood m =
     (case collect (map Node_log_density (nodes_of_role data m)) of
        Inl e \<Rightarrow> Inl e
      | Inr fs \<Rightarrow>
          Inr (''double logp = 0.0;\<newline>\<newline>'' @ concat fs @ ''\<newline>return logp;''))"

section \<open>Facts about the string operations\<close>

declare str_nat.simps [simp del]

lemma replace_ne_skip:
  "h \<notin> set A \<Longrightarrow> replace_ne (h # old) new (A @ ys) = A @ replace_ne (h # old) new ys"
  by (induction A) auto

lemma digit_char_in: "d < 10 \<Longrightarrow> digit_char d \<in> set ''0123456789''"
  unfolding digit_char_def by (rule nth_mem) simp

lemma set_str_nat: "set (str_nat n) \<subseteq> set ''0123456789''"
proof (induction n rule: str_nat.induct)
  case (1 n)
  show ?case
  proof (cases "n < 10")
    case True
    have "str_nat n = [digit_char n]" using True by (subst str_nat.simps) simp
    then show ?thesis using digit_char_in [OF True] by simp
  next
    case False
    have e: "str_nat n = str_nat (n div 10) @ [digit_char (n mod 10)]"
      using False by (subst str_nat.simps) simp
    have "n mod 10 < 10" by simp
    then have "digit_char (n mod 10) \<in> set ''0123456789''" by (rule digit_char_in)
    with 1 [OF False] show ?thesis unfolding e by simp
  qed
qed

lemma brace_str_nat: "CHR ''{'' \<notin> set (str_nat n)"
  using set_str_nat [of n] by auto

lemma brace_str_int: "CHR ''{'' \<notin> set (str_int i)"
  by (simp add: str_int_def brace_str_nat)

lemma startswith_set: "startswith s p \<Longrightarrow> set p \<subseteq> set s"
  by (induction s p rule: startswith.induct) auto

lemma occurs_set: "occurs p s \<Longrightarrow> set p \<subseteq> set s"
proof (induction s)
  case Nil
  then show ?case by simp
next
  case (Cons c cs)
  from Cons.prems have "startswith (c # cs) p \<or> occurs p cs" by simp
  then show ?case
  proof
    assume "startswith (c # cs) p"
    then show ?thesis by (rule startswith_set)
  next
    assume "occurs p cs"
    then have "set p \<subseteq> set cs" by (rule Cons.IH)
    then show ?thesis by auto
  qed
qed

lemma str_int_0: "str_int 0 = ''0''"
  by code_simp

lemma str_int_1: "str_int 1 = ''1''"
  by code_simp

lemma str_int_2: "str_int 2 = ''2''"
  by code_simp

lemma str_int_3: "str_int 3 = ''3''"
  by code_simp

lemma str_int_10: "str_int 10 = ''10''"
  by code_simp

lemma str_nat_0: "str_nat 0 = ''0''"
  by code_simp

lemma str_nat_1: "str_nat 1 = ''1''"
  by code_simp

lemma str_nat_2: "str_nat 2 = ''2''"
  by code_simp

lemma str_nat_3: "str_nat 3 = ''3''"
  by code_simp

lemmas str_evals = str_int_0 str_int_1 str_int_2 str_int_3 str_int_10
  str_nat_0 str_nat_1 str_nat_2 str_nat_3

section \<open>Distribution fragments\<close>

text \<open>
  Claim C6. For a Normal distribution whose parameters render without an
  opening brace (numbers, names of nodes), \<open>perturb\<close> is exactly three
  statements: \<open>log_H -= T\<close>, the mutation of the variable by a scaled random
  increment, and \<open>log_H += T\<close> with the same term \<open>T\<close>. \<open>T\<close> is \<open>-U\<close>, where
  \<open>- U\<close> is the only term of the emitted log density that depends on the
  variable. So what the three statements add to \<open>log_H\<close> is \<open>T\<close> at the new
  value minus \<open>T\<close> at the old value: the negative of the log-density
  difference between the old and the new value.
\<close>

theorem Normal_perturb_brackets_mutation:
  assumes "CHR ''{'' \<notin> set (py_str mu)" and "CHR ''{'' \<notin> set (py_str sigma)"
  shows "let U = ''0.5*pow((({x}) - ('' @ py_str mu @ ''))/('' @ py_str sigma @ ''), 2)'' in
     Normal_perturb mu sigma =
       (''log_H -= -'' @ U @ '';\<newline>'') @
       (''{x} += ('' @ py_str sigma @ '')*rng.randh();\<newline>'') @
       (''log_H += -'' @ U @ '';\<newline>'') \<and>
     Normal_log_density mu sigma =
       ''logp += -0.5*log(2*M_PI) - log('' @ py_str sigma @ '') - '' @ U @ '';\<newline>''"
proof -
  have p: "Normal_perturb mu sigma =
     ''log_H -= -0.5*pow((({x}) - ('' @ py_str mu @ ''))/('' @ py_str sigma @ ''), 2);\<newline>'' @
     ''{x} += ('' @ py_str sigma @ '')*rng.randh();\<newline>'' @
     ''log_H += -0.5*pow((({x}) - ('' @ py_str mu @ ''))/('' @ py_str sigma @ ''), 2);\<newline>''"
    using assms
    by (simp add: Normal_perturb_def Normal_insert_parameters_def replace_def replace_ne_skip)
  have d: "Normal_log_density mu sigma =
     ''logp += -0.5*log(2*M_PI) - log('' @ py_str sigma @ '') - 0.5*pow((({x}) - ('' @ py_str mu @ ''))/('' @ py_str sigma @ ''), 2);\<newline>''"
    using assms
    by (simp add: Normal_log_density_def Normal_insert_parameters_def replace_def replace_ne_skip)
  show ?thesis unfolding Let_def p d by simp
qed

text \<open>The theorem at \<open>Normal("y", 1)\<close>.\<close>

theorem Normal_perturb_brackets_mutation_witness:
  "CHR ''{'' \<notin> set (py_str (PyStr ''y'')) \<and> CHR ''{'' \<notin> set (py_str (PyInt 1)) \<and>
   Normal_perturb (PyStr ''y'') (PyInt 1) =
     ''log_H -= -0.5*pow((({x}) - (y))/(1), 2);\<newline>'' @
     ''{x} += (1)*rng.randh();\<newline>'' @
     ''log_H += -0.5*pow((({x}) - (y))/(1), 2);\<newline>'' \<and>
   Normal_log_density (PyStr ''y'') (PyInt 1) =
     ''logp += -0.5*log(2*M_PI) - log(1) - 0.5*pow((({x}) - (y))/(1), 2);\<newline>''"
proof -
  have h1: "CHR ''{'' \<notin> set (py_str (PyStr ''y''))" by simp
  have h2: "CHR ''{'' \<notin> set (py_str (PyInt 1))" by (simp add: str_int_1)
  from Normal_perturb_brackets_mutation [OF h1 h2] h1 h2
  show ?thesis by (simp add: Let_def str_int_1)
qed

text \<open>
  Claim C1, as amended. For a Uniform or LogUniform distribution whose
  parameters render without an opening brace, \<open>perturb\<close> is exactly the
  update and wrap statements (for LogUniform between the two statements that
  move the variable to log space and back). There is no statement on
  \<open>log_H\<close>: the text \<open>log_H\<close> can only occur in the fragment when the letter
  \<open>H\<close> occurs in a parameter's own rendering.
\<close>

theorem bounded_perturb_text:
  assumes "CHR ''{'' \<notin> set (py_str a)" and "CHR ''{'' \<notin> set (py_str b)"
  shows "Uniform_perturb a b =
       (''{x} += ('' @ py_str b @ '' - ('' @ py_str a @ ''))*rng.randh();\<newline>'') @
       (''wrap({x}, '' @ py_str a @ '', '' @ py_str b @ '');\<newline>'') \<and>
     LogUniform_perturb a b =
       ''{x} = log({x});\<newline>'' @
       (''{x} += log(('' @ py_str b @ '')/('' @ py_str a @ ''))*rng.randh();\<newline>'') @
       (''wrap({x}, log('' @ py_str a @ ''), log('' @ py_str b @ ''));\<newline>'') @
       ''{x} = exp({x});\<newline>'' \<and>
     (occurs ''log_H'' (Uniform_perturb a b) \<or> occurs ''log_H'' (LogUniform_perturb a b)
        \<longrightarrow> CHR ''H'' \<in> set (py_str a) \<union> set (py_str b))"
proof -
  have u: "Uniform_perturb a b =
       (''{x} += ('' @ py_str b @ '' - ('' @ py_str a @ ''))*rng.randh();\<newline>'') @
       (''wrap({x}, '' @ py_str a @ '', '' @ py_str b @ '');\<newline>'')"
    using assms
    by (simp add: Uniform_perturb_def Uniform_insert_parameters_def replace_def replace_ne_skip)
  have l: "LogUniform_perturb a b =
       ''{x} = log({x});\<newline>'' @
       (''{x} += log(('' @ py_str b @ '')/('' @ py_str a @ ''))*rng.randh();\<newline>'') @
       (''wrap({x}, log('' @ py_str a @ ''), log('' @ py_str b @ ''));\<newline>'') @
       ''{x} = exp({x});\<newline>''"
    using assms
    by (simp add: LogUniform_perturb_def LogUniform_insert_parameters_def replace_def
        replace_ne_skip)
  have hu: "CHR ''H'' \<in> set (py_str a) \<union> set (py_str b)"
    if "CHR ''H'' \<in> set (Uniform_perturb a b)"
    using that unfolding u by auto
  have hl: "CHR ''H'' \<in> set (py_str a) \<union> set (py_str b)"
    if "CHR ''H'' \<in> set (LogUniform_perturb a b)"
    using that unfolding l by auto
  have "CHR ''H'' \<in> set (py_str a) \<union> set (py_str b)"
    if "occurs ''log_H'' (Uniform_perturb a b) \<or> occurs ''log_H'' (LogUniform_perturb a b)"
  proof -
    from that have "CHR ''H'' \<in> set (Uniform_perturb a b) \<or>
        CHR ''H'' \<in> set (LogUniform_perturb a b)"
      using occurs_set [of "''log_H''"] by auto
    then show ?thesis using hu hl by blast
  qed
  with u l show ?thesis by blast
qed

text \<open>The theorem at the bounds 1 and 10.\<close>

theorem bounded_perturb_text_witness:
  "CHR ''{'' \<notin> set (py_str (PyInt 1)) \<and> CHR ''{'' \<notin> set (py_str (PyInt 10)) \<and>
   Uniform_perturb (PyInt 1) (PyInt 10) =
     ''{x} += (10 - (1))*rng.randh();\<newline>wrap({x}, 1, 10);\<newline>'' \<and>
   LogUniform_perturb (PyInt 1) (PyInt 10) =
     ''{x} = log({x});\<newline>{x} += log((10)/(1))*rng.randh();\<newline>wrap({x}, log(1), log(10));\<newline>{x} = exp({x});\<newline>''"
proof -
  have h1: "CHR ''{'' \<notin> set (py_str (PyInt 1))" by (simp add: str_int_1)
  have h2: "CHR ''{'' \<notin> set (py_str (PyInt 10))" by (simp add: str_int_10)
  from bounded_perturb_text [OF h1 h2] h1 h2
  show ?thesis by (simp add: str_evals)
qed

text \<open>
  As first stated (the fragment contains statements that accumulate into
  \<open>log_H\<close>) the property fails: for Uniform(0, 1) and LogUniform(1, 10)
  the text \<open>log_H\<close> occurs nowhere in the fragment.
\<close>

theorem bounded_perturb_without_log_H_counterexample:
  "\<not> occurs ''log_H'' (Uniform_perturb (PyInt 0) (PyInt 1)) \<and>
   \<not> occurs ''log_H'' (LogUniform_perturb (PyInt 1) (PyInt 10))"
  by (simp add: Uniform_perturb_def Uniform_insert_parameters_def LogUniform_perturb_def
      LogUniform_insert_parameters_def replace_def str_evals)

section \<open>Node construction\<close>

text \<open>
  Claim C7. Constructing a node of role prior-info with a prior that is not
  \<open>None\<close> raises (the assertion fails, no node is produced); with the prior
  \<open>None\<close> the construction succeeds and gives a prior-info node without
  prior.
\<close>

theorem prior_info_requires_no_prior:
  "(pr \<noteq> None \<longrightarrow> Node_init dt nm pr prior_info idx = Inl AssertionError) \<and>
   (\<exists>n. Node_init dt nm None prior_info idx = Inr n \<and> prior n = None \<and>
        node_type n = prior_info)"
  by (simp add: Node_init_def Let_def)

text \<open>The theorem at a prior-info node \<open>c\<close> with and without a prior.\<close>

theorem prior_info_requires_no_prior_witness:
  "Some (Deterministic ''1'') \<noteq> None \<and>
   Node_init py_float ''c'' (Some (Deterministic ''1'')) prior_info 0 = Inl AssertionError \<and>
   Node_init py_float ''c'' None prior_info 0 =
     Inr \<lparr>dtype = py_float, name = ''c'', index = 0, prior = None, node_type = prior_info\<rparr>"
  using prior_info_requires_no_prior [of "Some (Deterministic ''1'')" py_float "''c''" 0]
  by (simp add: Node_init_def)

section \<open>The description pass without coordinates\<close>

lemma description_loop_no_coordinate:
  "nodes_of_role coordinate m = [] \<Longrightarrow> description_loop m s = s"
  by (induction m arbitrary: s) (auto simp: nodes_of_role_def split: if_splits)

text \<open>
  Claim C9. For a model without coordinate node the loop of \<open>description\<close>
  appends nothing, so the five characters cut from the end are characters of
  the declaration \<open>string s;\<close> itself, and the result is the text \<open>strin\<close>,
  a double quote, a semicolon, a newline and \<open>return s;\<close>.
\<close>

theorem description_without_coordinate:
  assumes "nodes_of_role coordinate m = []"
  shows "Model_description m = ''strin'' @ [CHR 0x22] @ '';\<newline>return s;''"
  using assms
  by (simp add: Model_description_def description_loop_no_coordinate drop_last_def)

text \<open>The theorem at a model whose only node is a data node.\<close>

theorem description_without_coordinate_witness:
  "nodes_of_role coordinate
     [(''d'', \<lparr>dtype = py_float, name = ''d'', index = 0,
              prior = Some (Normal (PyInt 0) (PyInt 1)), node_type = data\<rparr>)] = [] \<and>
   Model_description
     [(''d'', \<lparr>dtype = py_float, name = ''d'', index = 0,
              prior = Some (Normal (PyInt 0) (PyInt 1)), node_type = data\<rparr>)] =
     ''strin'' @ [CHR 0x22] @ '';\<newline>return s;''"
proof -
  have h: "nodes_of_role coordinate
     [(''d'', \<lparr>dtype = py_float, name = ''d'', index = 0,
              prior = Some (Normal (PyInt 0) (PyInt 1)), node_type = data\<rparr>)] = []"
    by (simp add: nodes_of_role_def)
  from description_without_coordinate [OF h] h show ?thesis by simp
qed

section \<open>Grouping queries\<close>

text \<open>
  Claim C2, evaluated on the code. The three coordinate nodes constructed with
  base name \<open>x\<close> and indices 1, 2, 3 are registered under the names \<open>x[1]\<close>,
  \<open>x[2]\<close>, \<open>x[3]\<close>. The vector names of role coordinate are \<open>{x}\<close> and there
  is no scalar name, as the claim says; but \<open>get_vector_size\<close> compares
  every registered name with the base name itself, finds none equal, and
  returns 0 where the claim says 3.
\<close>

theorem vector_size_of_indexed_nodes:
  "let u = Some (Uniform (PyInt 0) (PyInt 1));
       n1 = \<lparr>dtype = py_float, name = ''x[1]'', index = 1, prior = u, node_type = coordinate\<rparr>;
       n2 = \<lparr>dtype = py_float, name = ''x[2]'', index = 2, prior = u, node_type = coordinate\<rparr>;
       n3 = \<lparr>dtype = py_float, name = ''x[3]'', index = 3, prior = u, node_type = coordinate\<rparr>;
       m = add_node (add_node (add_node Model_init n1) n2) n3
   in Node_init py_float ''x'' u coordinate 1 = Inr n1 \<and>
      Node_init py_float ''x'' u coordinate 2 = Inr n2 \<and>
      Node_init py_float ''x'' u coordinate 3 = Inr n3 \<and>
      m = [(''x[1]'', n1), (''x[2]'', n2), (''x[3]'', n3)] \<and>
      get_vector_names m coordinate = {''x''} \<and>
      get_scalar_names m coordinate = {} \<and>
      get_vector_size m ''x'' = 0"
  by (simp add: Let_def Node_init_def str_evals add_node_def Model_init_def
      get_vector_names_def get_scalar_names_def get_vector_size_def split_bracket_first_def)

section \<open>Registration\<close>

lemma dict_set_existing:
  "k \<in> fst ` set m \<Longrightarrow>
   \<exists>xs old ys. m = xs @ (k, old) # ys \<and> k \<notin> fst ` set xs \<and>
     dict_set m k v = xs @ (k, v) # ys"
proof (induction m)
  case Nil
  then show ?case by simp
next
  case (Cons e m)
  obtain k' v' where e: "e = (k', v')" by (cases e)
  show ?case
  proof (cases "k' = k")
    case True
    have "e # m = [] @ (k, v') # m \<and> k \<notin> fst ` set [] \<and>
        dict_set (e # m) k v = [] @ (k, v) # m"
      using True e by simp
    then show ?thesis by blast
  next
    case False
    with Cons.prems e have "k \<in> fst ` set m" by auto
    from Cons.IH [OF this] obtain xs old ys where
      *: "m = xs @ (k, old) # ys" "k \<notin> fst ` set xs" "dict_set m k v = xs @ (k, v) # ys"
      by blast
    have "e # m = (e # xs) @ (k, old) # ys \<and> k \<notin> fst ` set (e # xs) \<and>
        dict_set (e # m) k v = (e # xs) @ (k, v) # ys"
      using * False e by auto
    then show ?thesis by blast
  qed
qed

lemma dict_set_keys: "k \<in> fst ` set m \<Longrightarrow> map fst (dict_set m k v) = map fst m"
proof (induction m)
  case Nil
  then show ?case by simp
next
  case (Cons e m)
  show ?case
  proof (cases "fst e = k")
    case True
    then show ?thesis by (cases e) simp
  next
    case False
    with Cons.prems have "k \<in> fst ` set m" by auto
    with Cons.IH False show ?thesis by (cases e) simp
  qed
qed

lemma dict_set_fresh: "k \<notin> fst ` set m \<Longrightarrow> dict_set m k v = m @ [(k, v)]"
  by (induction m) auto

section \<open>Composition passes\<close>

lemma collect_append:
  "collect (xs @ ys) =
     (case collect xs of
        Inl e \<Rightarrow> Inl e
      | Inr fs \<Rightarrow> (case collect ys of Inl e \<Rightarrow> Inl e | Inr gs \<Rightarrow> Inr (fs @ gs)))"
  by (induction xs rule: collect.induct) (auto split: sum.splits)

lemma nodes_of_role_Cons:
  "nodes_of_role t ((nm, nd) # rest) =
     (if node_type nd = t then nd # nodes_of_role t rest else nodes_of_role t rest)"
  by (simp add: nodes_of_role_def)

lemma nodes_of_role_Nil: "nodes_of_role t [] = []"
  by (simp add: nodes_of_role_def)

lemma from_prior_loop_collect:
  "from_prior_loop t m s =
     (case collect (map Node_from_prior (nodes_of_role t m)) of
        Inl e \<Rightarrow> Inl e
      | Inr fs \<Rightarrow> Inr (s @ concat fs))"
proof (induction m arbitrary: s)
  case Nil
  show ?case by (simp add: nodes_of_role_Nil)
next
  case (Cons e m)
  obtain nm nd where e: "e = (nm, nd)" by (cases e)
  show ?case unfolding e
    by (cases "Node_from_prior nd")
       (simp_all add: nodes_of_role_Cons Cons.IH split: sum.splits)
qed

lemma log_likelihood_loop_collect:
  "log_likelihood_loop m s =
     (case collect (map Node_log_density (nodes_of_role data m)) of
        Inl e \<Rightarrow> Inl e
      | Inr fs \<Rightarrow> Inr (s @ concat fs))"
proof (induction m arbitrary: s)
  case Nil
  show ?case by (simp add: nodes_of_role_Nil)
next
  case (Cons e m)
  obtain nm nd where e: "e = (nm, nd)" by (cases e)
  show ?case unfolding e
    by (cases "Node_log_density nd")
       (simp_all add: nodes_of_role_Cons Cons.IH split: sum.splits)
qed

lemma count_coords_length:
  "count_coords m k = k + length (nodes_of_role coordinate m)"
  by (induction m arbitrary: k) (auto simp: nodes_of_role_def)

lemma if_which_text:
  "replace ''{k}'' (str_nat k) ''if(which == {k})\<newline>{\<newline>'' =
     ''if(which == '' @ str_nat k @ '')\<newline>{\<newline>''"
  using replace_ne_skip [OF brace_str_nat, of "''k}''" "str_nat k" k]
  by (simp add: replace_def)

lemma rand_int_text:
  "replace ''{n}'' (str_nat n) ''int which = rng.rand_int({n});\<newline>'' =
     ''int which = rng.rand_int('' @ str_nat n @ '');\<newline>''"
  by (simp add: replace_def)

lemma perturb_loop_collect:
  "perturb_loop m k s =
     (case collect (map Node_perturb (nodes_of_role coordinate m)) of
        Inl e \<Rightarrow> Inl e
      | Inr ps \<Rightarrow> Inr (s @ concat (map2 perturb_block [k..<k + length ps] ps)))"
proof (induction m arbitrary: k s)
  case Nil
  show ?case by (simp add: nodes_of_role_Nil)
next
  case (Cons e m)
  obtain nm nd where e: "e = (nm, nd)" by (cases e)
  show ?case
  proof (cases "node_type nd = coordinate")
    case False
    then show ?thesis unfolding e by (simp add: nodes_of_role_Cons Cons.IH)
  next
    case True
    show ?thesis
    proof (cases "Node_perturb nd")
      case (Inl err)
      with True show ?thesis unfolding e by (simp add: nodes_of_role_Cons)
    next
      case (Inr f)
      have up: "[k..<k + length (f # ps)] = k # [Suc k..<Suc k + length ps]" for ps :: "string list"
        by (simp add: upt_conv_Cons del: upt_Suc)
      have step: "perturb_loop (e # m) k s = perturb_loop m (Suc k) (s @ perturb_block k f)"
        using True Inr unfolding e by (simp add: if_which_text perturb_block_def)
      have ih: "perturb_loop m (Suc k) (s @ perturb_block k f) =
          (case collect (map Node_perturb (nodes_of_role coordinate m)) of
             Inl e \<Rightarrow> Inl e
           | Inr ps \<Rightarrow>
               Inr ((s @ perturb_block k f) @
                    concat (map2 perturb_block [Suc k..<Suc k + length ps] ps)))"
        by (rule Cons.IH)
      have rhs: "collect (map Node_perturb (nodes_of_role coordinate (e # m))) =
          (case collect (map Node_perturb (nodes_of_role coordinate m)) of
             Inl e \<Rightarrow> Inl e
           | Inr ps \<Rightarrow> Inr (f # ps))"
        using True Inr unfolding e by (simp add: nodes_of_role_Cons)
      show ?thesis
      proof (cases "collect (map Node_perturb (nodes_of_role coordinate m))")
        case (Inl err)
        show ?thesis unfolding step ih rhs Inl by simp
      next
        case r: (Inr ps)
        show ?thesis unfolding step ih rhs r
          by (simp only: sum.case up zip_Cons_Cons list.map concat.simps append_assoc
              prod.case)
      qed
    qed
  qed
qed

lemma str_nat_Suc_0: "str_nat (Suc 0) = ''1''"
  using str_nat_1 by simp

lemma collect_Inr: "collect (map Inr fs) = Inr fs"
  by (induction fs) auto

lemma from_prior_returns:
  "\<forall>n \<in> set ns. prior n \<noteq> None \<Longrightarrow> \<exists>fs. map Node_from_prior ns = map Inr fs"
proof (induction ns)
  case Nil
  then show ?case by simp
next
  case (Cons n ns)
  then obtain fs where fs: "map Node_from_prior ns = map Inr fs" by auto
  from Cons.prems obtain d where "prior n = Some d" by auto
  then have "Node_from_prior n = Inr (replace ''{x}'' (name n) (dist_from_prior d))"
    by (simp add: Node_from_prior_def)
  with fs have "map Node_from_prior (n # ns) =
      map Inr (replace ''{x}'' (name n) (dist_from_prior d) # fs)"
    by simp
  then show ?case by blast
qed

lemma perturb_returns:
  "\<forall>n \<in> set ns. prior n \<noteq> None \<Longrightarrow> \<exists>fs. map Node_perturb ns = map Inr fs"
proof (induction ns)
  case Nil
  then show ?case by simp
next
  case (Cons n ns)
  then obtain fs where fs: "map Node_perturb ns = map Inr fs" by auto
  from Cons.prems obtain d where "prior n = Some d" by auto
  then have "Node_perturb n = Inr (replace ''{x}'' (name n) (dist_perturb d))"
    by (simp add: Node_perturb_def)
  with fs have "map Node_perturb (n # ns) =
      map Inr (replace ''{x}'' (name n) (dist_perturb d) # fs)"
    by simp
  then show ?case by blast
qed

lemma log_density_returns:
  "\<forall>n \<in> set ns. \<exists>f. Node_log_density n = Inr f \<Longrightarrow>
   \<exists>fs. map Node_log_density ns = map Inr fs"
proof (induction ns)
  case Nil
  then show ?case by simp
next
  case (Cons n ns)
  then obtain fs where fs: "map Node_log_density ns = map Inr fs" by auto
  from Cons.prems obtain f where "Node_log_density n = Inr f" by auto
  with fs have "map Node_log_density (n # ns) = map Inr (f # fs)" by simp
  then show ?case by blast
qed

lemma Model_from_prior_spec: "Model_from_prior m = spec_from_prior m"
  by (simp add: Model_from_prior_def spec_from_prior_def from_prior_loop_collect
      collect_append split: sum.splits)

lemma Model_perturb_spec: "Model_perturb m = spec_perturb m"
  by (simp add: Model_perturb_def spec_perturb_def Let_def perturb_loop_collect
      from_prior_loop_collect count_coords_length rand_int_text split: sum.splits)

lemma Model_log_likelihood_spec: "Model_log_likelihood m = spec_log_likelihood m"
  by (simp add: Model_log_likelihood_def spec_log_likelihood_def
      log_likelihood_loop_collect split: sum.splits)

subsection \<open>The from_prior pass\<close>

text \<open>
  Claim C4. For every model, \<open>from_prior\<close> is the concatenation of the
  fragments \<open>from_prior()\<close> of the coordinate nodes in registration order,
  followed by those of the derived nodes in registration order: data and
  prior-info nodes are never asked, and the coordinate fragments come first
  however the registrations were interleaved. A node's \<open>from_prior()\<close> that
  raises ends the pass with that error; when every coordinate and derived node
  has a prior, the pass returns the concatenated string.
\<close>

theorem from_prior_coordinates_then_derived:
  "Model_from_prior m = spec_from_prior m \<and>
   ((\<forall>n \<in> set (nodes_of_role coordinate m @ nodes_of_role derived m). prior n \<noteq> None) \<longrightarrow>
    (\<exists>fs. map Node_from_prior (nodes_of_role coordinate m @ nodes_of_role derived m) =
             map Inr fs \<and>
          Model_from_prior m = Inr (concat fs)))"
proof (intro conjI impI)
  show "Model_from_prior m = spec_from_prior m" by (rule Model_from_prior_spec)
next
  assume "\<forall>n \<in> set (nodes_of_role coordinate m @ nodes_of_role derived m). prior n \<noteq> None"
  from from_prior_returns [OF this] obtain fs where
    fs: "map Node_from_prior (nodes_of_role coordinate m @ nodes_of_role derived m) =
      map Inr fs" ..
  then have "Model_from_prior m = Inr (concat fs)"
    unfolding Model_from_prior_spec spec_from_prior_def by (simp only: collect_Inr sum.case)
  with fs show "\<exists>fs. map Node_from_prior
        (nodes_of_role coordinate m @ nodes_of_role derived m) = map Inr fs \<and>
      Model_from_prior m = Inr (concat fs)"
    by blast
qed

subsection \<open>The perturb pass\<close>

text \<open>
  Claim C3. For every model, \<open>perturb\<close> is: the declaration of \<open>log_H\<close>
  set to zero; the draw of \<open>which\<close> over the number \<open>n\<close> of coordinate nodes;
  for the coordinate nodes in registration order, numbered from 0, a block
  guarded by \<open>which == k\<close> that holds the node's \<open>perturb()\<close> fragment, its
  lines indented; the \<open>from_prior()\<close> fragments of the derived nodes in
  registration order; the return of \<open>log_H\<close>. A node's call that raises ends
  the pass with that error; when every coordinate and derived node has a
  prior, the pass returns the string.
\<close>

theorem perturb_structure:
  "Model_perturb m = spec_perturb m \<and>
   ((\<forall>n \<in> set (nodes_of_role coordinate m @ nodes_of_role derived m). prior n \<noteq> None) \<longrightarrow>
    (\<exists>ps ds.
       map Node_perturb (nodes_of_role coordinate m) = map Inr ps \<and>
       map Node_from_prior (nodes_of_role derived m) = map Inr ds \<and>
       Model_perturb m =
         Inr (''double log_H = 0.0;\<newline>'' @
              ''int which = rng.rand_int('' @
                str_nat (length (nodes_of_role coordinate m)) @ '');\<newline>'' @
              concat (map2 perturb_block [0..<length (nodes_of_role coordinate m)] ps) @
              concat ds @
              ''return log_H;\<newline>'')))"
proof (intro conjI impI)
  show "Model_perturb m = spec_perturb m" by (rule Model_perturb_spec)
next
  assume a: "\<forall>n \<in> set (nodes_of_role coordinate m @ nodes_of_role derived m). prior n \<noteq> None"
  then have "\<forall>n \<in> set (nodes_of_role coordinate m). prior n \<noteq> None" by simp
  from perturb_returns [OF this] obtain ps where
    ps: "map Node_perturb (nodes_of_role coordinate m) = map Inr ps" ..
  from a have "\<forall>n \<in> set (nodes_of_role derived m). prior n \<noteq> None" by simp
  from from_prior_returns [OF this] obtain ds where
    ds: "map Node_from_prior (nodes_of_role derived m) = map Inr ds" ..
  have len: "length ps = length (nodes_of_role coordinate m)"
    using arg_cong [OF ps, of length] by simp
  have "Model_perturb m =
         Inr (''double log_H = 0.0;\<newline>'' @
              ''int which = rng.rand_int('' @
                str_nat (length (nodes_of_role coordinate m)) @ '');\<newline>'' @
              concat (map2 perturb_block [0..<length (nodes_of_role coordinate m)] ps) @
              concat ds @
              ''return log_H;\<newline>'')"
    unfolding Model_perturb_spec spec_perturb_def ps ds
    by (simp only: collect_Inr sum.case len)
  with ps ds show "\<exists>ps ds.
       map Node_perturb (nodes_of_role coordinate m) = map Inr ps \<and>
       map Node_from_prior (nodes_of_role derived m) = map Inr ds \<and>
       Model_perturb m =
         Inr (''double log_H = 0.0;\<newline>'' @
              ''int which = rng.rand_int('' @
                str_nat (length (nodes_of_role coordinate m)) @ '');\<newline>'' @
              concat (map2 perturb_block [0..<length (nodes_of_role coordinate m)] ps) @
              concat ds @
              ''return log_H;\<newline>'')"
    by blast
qed

lemma nodes_of_role_append:
  "nodes_of_role t (m @ m') = nodes_of_role t m @ nodes_of_role t m'"
  by (simp add: nodes_of_role_def)

subsection \<open>The log_likelihood pass\<close>

text \<open>
  Claim C5. For every model, \<open>log_likelihood\<close> is the accumulator \<open>logp\<close> set
  to zero, the \<open>log_density()\<close> fragments of the data nodes in registration
  order, and the return of \<open>logp\<close> (a data node's call that raises ends the
  pass with that error). Registering a further node of role prior-info or
  coordinate under a name not yet registered leaves the outcome unchanged.
\<close>

theorem log_likelihood_data_only:
  "Model_log_likelihood m = spec_log_likelihood m \<and>
   ((\<forall>n \<in> set (nodes_of_role data m). \<exists>f. Node_log_density n = Inr f) \<longrightarrow>
    (\<exists>fs. map Node_log_density (nodes_of_role data m) = map Inr fs \<and>
          Model_log_likelihood m =
            Inr (''double logp = 0.0;\<newline>\<newline>'' @ concat fs @ ''\<newline>return logp;''))) \<and>
   ((node_type n = prior_info \<or> node_type n = coordinate) \<and> name n \<notin> fst ` set m \<longrightarrow>
    Model_log_likelihood (add_node m n) = Model_log_likelihood m)"
proof (intro conjI impI)
  show "Model_log_likelihood m = spec_log_likelihood m" by (rule Model_log_likelihood_spec)
next
  assume "\<forall>n \<in> set (nodes_of_role data m). \<exists>f. Node_log_density n = Inr f"
  from log_density_returns [OF this] obtain fs where
    fs: "map Node_log_density (nodes_of_role data m) = map Inr fs" ..
  then have "Model_log_likelihood m =
      Inr (''double logp = 0.0;\<newline>\<newline>'' @ concat fs @ ''\<newline>return logp;'')"
    unfolding Model_log_likelihood_spec spec_log_likelihood_def
    by (simp only: collect_Inr sum.case)
  with fs show "\<exists>fs. map Node_log_density (nodes_of_role data m) = map Inr fs \<and>
      Model_log_likelihood m =
        Inr (''double logp = 0.0;\<newline>\<newline>'' @ concat fs @ ''\<newline>return logp;'')"
    by blast
next
  assume a: "(node_type n = prior_info \<or> node_type n = coordinate) \<and> name n \<notin> fst ` set m"
  then have "add_node m n = m @ [(name n, n)]"
    by (simp add: add_node_def dict_set_fresh)
  moreover from a have "nodes_of_role data [(name n, n)] = []"
    by (auto simp: nodes_of_role_def)
  ultimately have "nodes_of_role data (add_node m n) = nodes_of_role data m"
    by (simp add: nodes_of_role_append)
  then show "Model_log_likelihood (add_node m n) = Model_log_likelihood m"
    by (simp add: Model_log_likelihood_spec spec_log_likelihood_def)
qed

subsection \<open>Registering a name again\<close>

lemma print_loop_acc: "print_loop m s = s @ print_loop m []"
proof (induction m arbitrary: s)
  case Nil
  show ?case by simp
next
  case (Cons e m)
  obtain nm nd where e: "e = (nm, nd)" by (cases e)
  show ?case unfolding e
    using Cons.IH [of "s @ ''out<<'' @ Node_str nd @ ''<<'' @ [CHR 0x22] @ '' '' @ [CHR 0x22] @ '';\<newline>''"]
      Cons.IH [of "''out<<'' @ Node_str nd @ ''<<'' @ [CHR 0x22] @ '' '' @ [CHR 0x22] @ '';\<newline>''"]
      Cons.IH [of s]
    by simp
qed

lemma print_loop_append: "print_loop (xs @ ys) s = print_loop ys (print_loop xs s)"
  by (induction xs arbitrary: s) auto

lemma description_loop_acc: "description_loop m s = s @ description_loop m []"
proof (induction m arbitrary: s)
  case Nil
  show ?case by simp
next
  case (Cons e m)
  obtain nm nd where e: "e = (nm, nd)" by (cases e)
  show ?case unfolding e
    using Cons.IH [of "s @ ''s += '' @ [CHR 0x22] @ Node_str nd @ '', '' @ [CHR 0x22] @ '';\<newline>''"]
      Cons.IH [of "''s += '' @ [CHR 0x22] @ Node_str nd @ '', '' @ [CHR 0x22] @ '';\<newline>''"]
      Cons.IH [of s]
    by simp
qed

lemma description_loop_append:
  "description_loop (xs @ ys) s = description_loop ys (description_loop xs s)"
  by (induction xs arbitrary: s) auto

lemma nodes_of_role_around:
  "nodes_of_role t (xs @ (k, n) # ys) =
     nodes_of_role t xs @ (if node_type n = t then [n] else []) @ nodes_of_role t ys"
  by (simp add: nodes_of_role_def)

lemma print_code_around:
  "Model_print_code (xs @ (k, n) # ys) =
     Model_print_code xs @
     (if node_type n = coordinate
      then ''out<<'' @ name n @ ''<<'' @ [CHR 0x22] @ '' '' @ [CHR 0x22] @ '';\<newline>''
      else []) @
     Model_print_code ys"
proof -
  have "print_loop (xs @ (k, n) # ys) [] = print_loop ((k, n) # ys) (print_loop xs [])"
    by (rule print_loop_append)
  also have "\<dots> = print_loop ys (print_loop xs [] @
      (if node_type n = coordinate
       then ''out<<'' @ name n @ ''<<'' @ [CHR 0x22] @ '' '' @ [CHR 0x22] @ '';\<newline>''
       else []))"
    by (simp add: Node_str_def)
  also have "\<dots> = (print_loop xs [] @
      (if node_type n = coordinate
       then ''out<<'' @ name n @ ''<<'' @ [CHR 0x22] @ '' '' @ [CHR 0x22] @ '';\<newline>''
       else [])) @ print_loop ys []"
    by (rule print_loop_acc)
  finally show ?thesis by (simp add: Model_print_code_def)
qed

lemma description_around:
  "Model_description (xs @ (k, n) # ys) =
     drop_last 5
       (''string s;\<newline>'' @ description_loop xs [] @
        (if node_type n = coordinate
         then ''s += '' @ [CHR 0x22] @ name n @ '', '' @ [CHR 0x22] @ '';\<newline>''
         else []) @
        description_loop ys []) @
     ([CHR 0x22] @ '';'') @ ''\<newline>return s;''"
proof -
  let ?f = "if node_type n = coordinate
         then ''s += '' @ [CHR 0x22] @ name n @ '', '' @ [CHR 0x22] @ '';\<newline>''
         else []"
  have "description_loop (xs @ (k, n) # ys) ''string s;\<newline>'' =
      description_loop ((k, n) # ys) (description_loop xs ''string s;\<newline>'')"
    by (rule description_loop_append)
  also have "\<dots> = description_loop ys (description_loop xs ''string s;\<newline>'' @ ?f)"
    by (simp add: Node_str_def)
  also have "\<dots> = (description_loop xs ''string s;\<newline>'' @ ?f) @ description_loop ys []"
    by (rule description_loop_acc)
  also have "description_loop xs ''string s;\<newline>'' = ''string s;\<newline>'' @ description_loop xs []"
    by (rule description_loop_acc)
  finally show ?thesis by (simp add: Model_description_def Let_def)
qed

text \<open>
  Claim C10. When the name of the node is already registered, \<open>add_node\<close>
  replaces the value stored at the entry of that name: the entries \<open>xs\<close>
  before it and \<open>ys\<close> after it are unchanged, and so is the order of the
  names. Each of the five passes then emits the fragment of the new node
  between what it emits for \<open>xs\<close> and what it emits for \<open>ys\<close>: among the
  nodes of its role the new node stands after those of \<open>xs\<close> and before
  those of \<open>ys\<close>, at the place of the old one and not at the end.
\<close>

theorem add_node_existing_name:
  assumes "name n \<in> fst ` set m"
  shows "(\<exists>xs old ys. m = xs @ (name n, old) # ys \<and> name n \<notin> fst ` set xs \<and>
            add_node m n = xs @ (name n, n) # ys) \<and>
         map fst (add_node m n) = map fst m \<and>
         (\<forall>xs old ys.
            m = xs @ (name n, old) # ys \<and> name n \<notin> fst ` set xs \<longrightarrow>
            (let R = (\<lambda>t. nodes_of_role t xs @ (if node_type n = t then [n] else []) @
                           nodes_of_role t ys)
             in add_node m n = xs @ (name n, n) # ys \<and>
                (\<forall>t. nodes_of_role t (add_node m n) = R t) \<and>
                Model_from_prior (add_node m n) =
                  (case collect (map Node_from_prior (R coordinate @ R derived)) of
                     Inl e \<Rightarrow> Inl e
                   | Inr fs \<Rightarrow> Inr (concat fs)) \<and>
                Model_perturb (add_node m n) =
                  (case collect (map Node_perturb (R coordinate)) of
                     Inl e \<Rightarrow> Inl e
                   | Inr ps \<Rightarrow>
                       (case collect (map Node_from_prior (R derived)) of
                          Inl e \<Rightarrow> Inl e
                        | Inr ds \<Rightarrow>
                            Inr (''double log_H = 0.0;\<newline>'' @
                                 ''int which = rng.rand_int('' @
                                   str_nat (length (R coordinate)) @ '');\<newline>'' @
                                 concat (map2 perturb_block [0..<length ps] ps) @
                                 concat ds @
                                 ''return log_H;\<newline>''))) \<and>
                Model_log_likelihood (add_node m n) =
                  (case collect (map Node_log_density (R data)) of
                     Inl e \<Rightarrow> Inl e
                   | Inr fs \<Rightarrow>
                       Inr (''double logp = 0.0;\<newline>\<newline>'' @ concat fs @
                            ''\<newline>return logp;'')) \<and>
                Model_print_code (add_node m n) =
                  Model_print_code xs @
                  (if node_type n = coordinate
                   then ''out<<'' @ name n @ ''<<'' @ [CHR 0x22] @ '' '' @ [CHR 0x22] @
                        '';\<newline>''
                   else []) @
                  Model_print_code ys \<and>
                Model_description (add_node m n) =
                  drop_last 5
                    (''string s;\<newline>'' @ description_loop xs [] @
                     (if node_type n = coordinate
                      then ''s += '' @ [CHR 0x22] @ name n @ '', '' @ [CHR 0x22] @
                           '';\<newline>''
                      else []) @
                     description_loop ys []) @
                  ([CHR 0x22] @ '';'') @ ''\<newline>return s;''))"
proof (intro conjI allI impI)
  show "\<exists>xs old ys. m = xs @ (name n, old) # ys \<and> name n \<notin> fst ` set xs \<and>
      add_node m n = xs @ (name n, n) # ys"
    using assms dict_set_existing [of "name n" m n] by (simp add: add_node_def)
  show "map fst (add_node m n) = map fst m"
    using assms dict_set_keys [of "name n" m n] by (simp add: add_node_def)
next
  fix xs old ys
  assume a: "m = xs @ (name n, old) # ys \<and> name n \<notin> fst ` set xs"
  have dfresh: "dict_set (xs @ (k, old) # ys) k v = xs @ (k, v) # ys"
    if "k \<notin> fst ` set xs" for k v
    using that by (induction xs) auto
  from a have e: "add_node m n = xs @ (name n, n) # ys"
    by (simp add: add_node_def dfresh)
  show "let R = (\<lambda>t. nodes_of_role t xs @ (if node_type n = t then [n] else []) @
                           nodes_of_role t ys)
        in add_node m n = xs @ (name n, n) # ys \<and>
           (\<forall>t. nodes_of_role t (add_node m n) = R t) \<and>
           Model_from_prior (add_node m n) =
             (case collect (map Node_from_prior (R coordinate @ R derived)) of
                Inl e \<Rightarrow> Inl e
              | Inr fs \<Rightarrow> Inr (concat fs)) \<and>
           Model_perturb (add_node m n) =
             (case collect (map Node_perturb (R coordinate)) of
                Inl e \<Rightarrow> Inl e
              | Inr ps \<Rightarrow>
                  (case collect (map Node_from_prior (R derived)) of
                     Inl e \<Rightarrow> Inl e
                   | Inr ds \<Rightarrow>
                       Inr (''double log_H = 0.0;\<newline>'' @
                            ''int which = rng.rand_int('' @
                              str_nat (length (R coordinate)) @ '');\<newline>'' @
                            concat (map2 perturb_block [0..<length ps] ps) @
                            concat ds @
                            ''return log_H;\<newline>''))) \<and>
           Model_log_likelihood (add_node m n) =
             (case collect (map Node_log_density (R data)) of
                Inl e \<Rightarrow> Inl e
              | Inr fs \<Rightarrow>
                  Inr (''double logp = 0.0;\<newline>\<newline>'' @ concat fs @
                       ''\<newline>return logp;'')) \<and>
           Model_print_code (add_node m n) =
             Model_print_code xs @
             (if node_type n = coordinate
              then ''out<<'' @ name n @ ''<<'' @ [CHR 0x22] @ '' '' @ [CHR 0x22] @
                   '';\<newline>''
              else []) @
             Model_print_code ys \<and>
           Model_description (add_node m n) =
             drop_last 5
               (''string s;\<newline>'' @ description_loop xs [] @
                (if node_type n = coordinate
                 then ''s += '' @ [CHR 0x22] @ name n @ '', '' @ [CHR 0x22] @
                      '';\<newline>''
                 else []) @
                description_loop ys []) @
             ([CHR 0x22] @ '';'') @ ''\<newline>return s;''"
    unfolding Let_def e Model_from_prior_spec Model_perturb_spec Model_log_likelihood_spec
      spec_from_prior_def spec_perturb_def spec_log_likelihood_def nodes_of_role_around
      print_code_around description_around
    by (intro conjI allI refl)
qed

subsection \<open>Calls leave the registry as it was\<close>

lemma nodes_getitem_state: "snd (nodes_getitem k h) = h"
  by (simp add: nodes_getitem_def)

lemma from_prior_for_state: "snd (from_prior_for t names s h) = h"
  by (induction names arbitrary: s)
     (auto simp: nodes_getitem_def split: option.splits sum.splits)

lemma count_coords_for_state: "snd (count_coords_for names k h) = h"
  by (induction names arbitrary: k)
     (auto simp: nodes_getitem_def split: option.splits sum.splits)

lemma perturb_for_state: "snd (perturb_for names k s h) = h"
  by (induction names arbitrary: k s)
     (auto simp: nodes_getitem_def split: option.splits sum.splits)

lemma print_for_state: "snd (print_for names s h) = h"
  by (induction names arbitrary: s)
     (auto simp: nodes_getitem_def split: option.splits sum.splits)

lemma description_for_state: "snd (description_for names s h) = h"
  by (induction names arbitrary: s)
     (auto simp: nodes_getitem_def split: option.splits sum.splits)

lemma log_likelihood_for_state: "snd (log_likelihood_for names s h) = h"
  by (induction names arbitrary: s)
     (auto simp: nodes_getitem_def split: option.splits sum.splits)

lemma nodes_getitem_entry: "map_of h k = Some v \<Longrightarrow> nodes_getitem k h = (Inr v, h)"
  by (simp add: nodes_getitem_def)

lemma from_prior_for_loop:
  "\<forall>(k, v) \<in> set es. map_of h k = Some v \<Longrightarrow>
   from_prior_for t (map fst es) s h = (from_prior_loop t es s, h)"
  by (induction es arbitrary: s) (auto simp: nodes_getitem_entry split: sum.splits)

lemma count_coords_for_loop:
  "\<forall>(k, v) \<in> set es. map_of h k = Some v \<Longrightarrow>
   count_coords_for (map fst es) n h = (Inr (count_coords es n), h)"
  by (induction es arbitrary: n) (auto simp: nodes_getitem_entry)

lemma perturb_for_loop:
  "\<forall>(k, v) \<in> set es. map_of h k = Some v \<Longrightarrow>
   perturb_for (map fst es) k0 s h = (perturb_loop es k0 s, h)"
  by (induction es arbitrary: k0 s) (auto simp: nodes_getitem_entry split: sum.splits)

lemma print_for_loop:
  "\<forall>(k, v) \<in> set es. map_of h k = Some v \<Longrightarrow>
   print_for (map fst es) s h = (Inr (print_loop es s), h)"
  by (induction es arbitrary: s) (auto simp: nodes_getitem_entry)

lemma description_for_loop:
  "\<forall>(k, v) \<in> set es. map_of h k = Some v \<Longrightarrow>
   description_for (map fst es) s h = (Inr (description_loop es s), h)"
  by (induction es arbitrary: s) (auto simp: nodes_getitem_entry)

lemma log_likelihood_for_loop:
  "\<forall>(k, v) \<in> set es. map_of h k = Some v \<Longrightarrow>
   log_likelihood_for (map fst es) s h = (log_likelihood_loop es s, h)"
  by (induction es arbitrary: s) (auto simp: nodes_getitem_entry split: sum.splits)

lemma distinct_entries:
  "distinct (map fst h) \<Longrightarrow> \<forall>(k, v) \<in> set h. map_of h k = Some v"
  by auto

lemma from_prior_for_stateD: "from_prior_for t names s h = (r, h') \<Longrightarrow> h' = h"
  using from_prior_for_state [of t names s h] by simp

lemma count_coords_for_stateD: "count_coords_for names k h = (r, h') \<Longrightarrow> h' = h"
  using count_coords_for_state [of names k h] by simp

lemma perturb_for_stateD: "perturb_for names k s h = (r, h') \<Longrightarrow> h' = h"
  using perturb_for_state [of names k s h] by simp

lemma print_for_stateD: "print_for names s h = (r, h') \<Longrightarrow> h' = h"
  using print_for_state [of names s h] by simp

lemma description_for_stateD: "description_for names s h = (r, h') \<Longrightarrow> h' = h"
  using description_for_state [of names s h] by simp

lemma log_likelihood_for_stateD: "log_likelihood_for names s h = (r, h') \<Longrightarrow> h' = h"
  using log_likelihood_for_state [of names s h] by simp

lemma Model_from_prior_call_state: "snd (Model_from_prior_call h) = h"
  by (auto simp: Model_from_prior_call_def nodes_keys_def from_prior_for_state
      split: prod.splits sum.splits dest!: from_prior_for_stateD)

lemma Model_perturb_call_state: "snd (Model_perturb_call h) = h"
  by (auto simp: Model_perturb_call_def nodes_keys_def Let_def from_prior_for_state
      count_coords_for_state perturb_for_state split: prod.splits sum.splits
      dest!: from_prior_for_stateD count_coords_for_stateD perturb_for_stateD)

lemma Model_print_code_call_state: "snd (Model_print_code_call h) = h"
  by (simp add: Model_print_code_call_def nodes_keys_def print_for_state)

lemma Model_description_call_state: "snd (Model_description_call h) = h"
  by (auto simp: Model_description_call_def nodes_keys_def description_for_state
      split: prod.splits sum.splits dest!: description_for_stateD)

lemma Model_log_likelihood_call_state: "snd (Model_log_likelihood_call h) = h"
  by (auto simp: Model_log_likelihood_call_def nodes_keys_def log_likelihood_for_state
      split: prod.splits sum.splits dest!: log_likelihood_for_stateD)

lemma call_state: "snd (call p h) = h"
  by (cases p)
     (simp_all add: Model_from_prior_call_state Model_perturb_call_state
        Model_print_code_call_state Model_description_call_state
        Model_log_likelihood_call_state)

lemma call_result:
  assumes "distinct (map fst h)"
  shows "call p h = (pass_result p h, h)"
proof -
  note e = distinct_entries [OF assms]
  show ?thesis
  proof (cases p)
    case from_prior_pass
    show ?thesis unfolding from_prior_pass
      by (simp add: Model_from_prior_call_def nodes_keys_def from_prior_for_loop [OF e]
          Model_from_prior_def split: sum.splits)
  next
    case perturb_pass
    show ?thesis unfolding perturb_pass
      by (simp add: Model_perturb_call_def nodes_keys_def count_coords_for_loop [OF e]
          perturb_for_loop [OF e] from_prior_for_loop [OF e] Model_perturb_def Let_def
          split: sum.splits)
  next
    case print_code_pass
    show ?thesis unfolding print_code_pass
      by (simp add: Model_print_code_call_def nodes_keys_def print_for_loop [OF e]
          Model_print_code_def)
  next
    case description_pass
    show ?thesis unfolding description_pass
      by (simp add: Model_description_call_def nodes_keys_def description_for_loop [OF e]
          Model_description_def Let_def)
  next
    case log_likelihood_pass
    show ?thesis unfolding log_likelihood_pass
      by (simp add: Model_log_likelihood_call_def nodes_keys_def
          log_likelihood_for_loop [OF e] Model_log_likelihood_def split: sum.splits)
  qed
qed

lemma run_results: "run ps h = (map (\<lambda>p. fst (call p h)) ps, h)"
proof (induction ps)
  case Nil
  show ?case by simp
next
  case (Cons p ps)
  obtain r where r: "call p h = (r, h)"
    using call_state [of p h] by (cases "call p h") simp
  show ?case by (simp add: r Cons.IH)
qed

lemma add_node_call_writes: "add_node_call n h = ((), add_node h n)"
  by (simp add: add_node_call_def nodes_setitem_def add_node_def)

text \<open>
  Claim C8. Every pass only reads the dictionary: a call leaves the state of
  the object as it found it, whatever the registry and whether the call
  returns or raises. So a pass called after any other call (the same pass or
  another one) has the outcome it has on the untouched object, and the calls
  of any list of passes, in any order, have the outcomes of the single calls.
  On a registry with distinct keys, as every dictionary is, the outcome of a
  call is the value of the pure function of the registry.
\<close>

theorem passes_read_only:
  "snd (call p h) = h \<and>
   fst (call p (snd (call q h))) = fst (call p h) \<and>
   run ps h = (map (\<lambda>p. fst (call p h)) ps, h) \<and>
   (distinct (map fst h) \<longrightarrow> call p h = (pass_result p h, h))"
  by (simp add: call_state run_results call_result)

subsection \<open>The passes on example registries\<close>

text \<open>
  The theorem at a registry in the order derived \<open>y\<close>, data \<open>d\<close>, prior-info
  \<open>c\<close> (without prior), coordinate \<open>x\<close>.
\<close>

theorem from_prior_coordinates_then_derived_witness:
  "(let y = \<lparr>dtype = py_float, name = ''y'', index = 0,
               prior = Some (Deterministic ''2*x''), node_type = derived\<rparr>;
        d = \<lparr>dtype = py_float, name = ''d'', index = 0,
               prior = Some (Normal (PyStr ''y'') (PyInt 1)), node_type = data\<rparr>;
        c = \<lparr>dtype = py_float, name = ''c'', index = 0,
               prior = None, node_type = prior_info\<rparr>;
        x = \<lparr>dtype = py_float, name = ''x'', index = 0,
               prior = Some (Uniform (PyInt 0) (PyInt 10)), node_type = coordinate\<rparr>;
        m = [(''y'', y), (''d'', d), (''c'', c), (''x'', x)]
    in (\<forall>n \<in> set (nodes_of_role coordinate m @ nodes_of_role derived m). prior n \<noteq> None) \<and>
       Model_from_prior m = Inr ''x = 0 + (10 - (0))*rng.rand();\<newline>y = 2*x;\<newline>'')"
proof -
  let ?y = "\<lparr>dtype = py_float, name = ''y'', index = 0,
               prior = Some (Deterministic ''2*x''), node_type = derived\<rparr>"
  let ?d = "\<lparr>dtype = py_float, name = ''d'', index = 0,
               prior = Some (Normal (PyStr ''y'') (PyInt 1)), node_type = data\<rparr>"
  let ?c = "\<lparr>dtype = py_float, name = ''c'', index = 0,
               prior = None, node_type = prior_info\<rparr>"
  let ?x = "\<lparr>dtype = py_float, name = ''x'', index = 0,
               prior = Some (Uniform (PyInt 0) (PyInt 10)), node_type = coordinate\<rparr>"
  let ?m = "[(''y'', ?y), (''d'', ?d), (''c'', ?c), (''x'', ?x)]"
  have c: "nodes_of_role coordinate ?m = [?x]" by (simp add: nodes_of_role_def)
  have d: "nodes_of_role derived ?m = [?y]" by (simp add: nodes_of_role_def)
  have h: "\<forall>n \<in> set (nodes_of_role coordinate ?m @ nodes_of_role derived ?m). prior n \<noteq> None"
    unfolding c d by simp
  have fx: "Node_from_prior ?x = Inr ''x = 0 + (10 - (0))*rng.rand();\<newline>''"
    by (simp add: Node_from_prior_def Uniform_from_prior_def Uniform_insert_parameters_def
        replace_def str_evals)
  have fy: "Node_from_prior ?y = Inr ''y = 2*x;\<newline>''"
    by (simp add: Node_from_prior_def Deterministic_from_prior_def replace_def)
  from from_prior_coordinates_then_derived [of ?m] h obtain fs where
    fs: "map Node_from_prior (nodes_of_role coordinate ?m @ nodes_of_role derived ?m) =
      map Inr fs" and
    r: "Model_from_prior ?m = Inr (concat fs)"
    by blast
  from fs have "fs = [''x = 0 + (10 - (0))*rng.rand();\<newline>'', ''y = 2*x;\<newline>'']"
    unfolding c d by (auto simp: fx fy Cons_eq_map_conv)
  with r have "Model_from_prior ?m = Inr ''x = 0 + (10 - (0))*rng.rand();\<newline>y = 2*x;\<newline>''"
    by simp
  with h show ?thesis unfolding Let_def by (rule_tac conjI)
qed

text \<open>
  The theorem at the registry \<open>x\<close> (coordinate), \<open>y\<close> (derived), \<open>d\<close> (data):
  with one coordinate node the draw is over a range of size 1.
\<close>

theorem perturb_structure_witness:
  "(let x = \<lparr>dtype = py_float, name = ''x'', index = 0,
               prior = Some (Uniform (PyInt 0) (PyInt 10)), node_type = coordinate\<rparr>;
        y = \<lparr>dtype = py_float, name = ''y'', index = 0,
               prior = Some (Deterministic ''2*x''), node_type = derived\<rparr>;
        d = \<lparr>dtype = py_float, name = ''d'', index = 0,
               prior = Some (Normal (PyStr ''y'') (PyInt 1)), node_type = data\<rparr>;
        m = [(''x'', x), (''y'', y), (''d'', d)]
    in (\<forall>n \<in> set (nodes_of_role coordinate m @ nodes_of_role derived m). prior n \<noteq> None) \<and>
       Model_perturb m =
         Inr (''double log_H = 0.0;\<newline>'' @
              ''int which = rng.rand_int(1);\<newline>'' @
              ''if(which == 0)\<newline>'' @
              ''{\<newline>'' @
              ''    x += (10 - (0))*rng.randh();\<newline>'' @
              ''    wrap(x, 0, 10);\<newline>'' @
              ''}\<newline>'' @
              ''y = 2*x;\<newline>'' @
              ''return log_H;\<newline>''))"
proof -
  let ?x = "\<lparr>dtype = py_float, name = ''x'', index = 0,
               prior = Some (Uniform (PyInt 0) (PyInt 10)), node_type = coordinate\<rparr>"
  let ?y = "\<lparr>dtype = py_float, name = ''y'', index = 0,
               prior = Some (Deterministic ''2*x''), node_type = derived\<rparr>"
  let ?d = "\<lparr>dtype = py_float, name = ''d'', index = 0,
               prior = Some (Normal (PyStr ''y'') (PyInt 1)), node_type = data\<rparr>"
  let ?m = "[(''x'', ?x), (''y'', ?y), (''d'', ?d)]"
  have c: "nodes_of_role coordinate ?m = [?x]" by (simp add: nodes_of_role_def)
  have d: "nodes_of_role derived ?m = [?y]" by (simp add: nodes_of_role_def)
  have h: "\<forall>n \<in> set (nodes_of_role coordinate ?m @ nodes_of_role derived ?m). prior n \<noteq> None"
    unfolding c d by simp
  have px: "Node_perturb ?x = Inr ''x += (10 - (0))*rng.randh();\<newline>wrap(x, 0, 10);\<newline>''"
    by (simp add: Node_perturb_def Uniform_perturb_def Uniform_insert_parameters_def
        replace_def str_evals)
  have fy: "Node_from_prior ?y = Inr ''y = 2*x;\<newline>''"
    by (simp add: Node_from_prior_def Deterministic_from_prior_def replace_def)
  have blk: "perturb_block 0 ''x += (10 - (0))*rng.randh();\<newline>wrap(x, 0, 10);\<newline>'' =
      ''if(which == 0)\<newline>{\<newline>    x += (10 - (0))*rng.randh();\<newline>    wrap(x, 0, 10);\<newline>}\<newline>''"
    by (simp add: perturb_block_def indent_lines_def is_linebreak_def str_evals)
  from perturb_structure [of ?m] h obtain ps ds where
    ps: "map Node_perturb (nodes_of_role coordinate ?m) = map Inr ps" and
    ds: "map Node_from_prior (nodes_of_role derived ?m) = map Inr ds" and
    r: "Model_perturb ?m =
         Inr (''double log_H = 0.0;\<newline>'' @
              ''int which = rng.rand_int('' @
                str_nat (length (nodes_of_role coordinate ?m)) @ '');\<newline>'' @
              concat (map2 perturb_block [0..<length (nodes_of_role coordinate ?m)] ps) @
              concat ds @
              ''return log_H;\<newline>'')"
    by blast
  from ps have ps': "ps = [''x += (10 - (0))*rng.randh();\<newline>wrap(x, 0, 10);\<newline>'']"
    unfolding c by (auto simp: px Cons_eq_map_conv)
  from ds have ds': "ds = [''y = 2*x;\<newline>'']"
    unfolding d by (auto simp: fy Cons_eq_map_conv)
  have "Model_perturb ?m =
         Inr (''double log_H = 0.0;\<newline>'' @
              ''int which = rng.rand_int(1);\<newline>'' @
              ''if(which == 0)\<newline>'' @
              ''{\<newline>'' @
              ''    x += (10 - (0))*rng.randh();\<newline>'' @
              ''    wrap(x, 0, 10);\<newline>'' @
              ''}\<newline>'' @
              ''y = 2*x;\<newline>'' @
              ''return log_H;\<newline>'')"
    unfolding r c ps' ds' by (simp add: blk str_nat_Suc_0)
  with h show ?thesis unfolding Let_def by (rule_tac conjI)
qed

text \<open>
  The theorem at the registry \<open>x\<close> (coordinate), \<open>d\<close> (data), and the further
  coordinate node \<open>z\<close>.
\<close>

theorem log_likelihood_data_only_witness:
  "(let x = \<lparr>dtype = py_float, name = ''x'', index = 0,
               prior = Some (Uniform (PyInt 0) (PyInt 10)), node_type = coordinate\<rparr>;
        d = \<lparr>dtype = py_float, name = ''d'', index = 0,
               prior = Some (Normal (PyStr ''y'') (PyInt 1)), node_type = data\<rparr>;
        z = \<lparr>dtype = py_float, name = ''z'', index = 0,
               prior = Some (Uniform (PyInt 0) (PyInt 1)), node_type = coordinate\<rparr>;
        m = [(''x'', x), (''d'', d)]
    in (\<forall>n \<in> set (nodes_of_role data m). \<exists>f. Node_log_density n = Inr f) \<and>
       ((node_type z = prior_info \<or> node_type z = coordinate) \<and> name z \<notin> fst ` set m) \<and>
       Model_log_likelihood m =
         Inr (''double logp = 0.0;\<newline>\<newline>'' @
              ''logp += -0.5*log(2*M_PI) - log(1) - 0.5*pow(((d) - (y))/(1), 2);\<newline>'' @
              ''\<newline>return logp;'') \<and>
       add_node m z = [(''x'', x), (''d'', d), (''z'', z)] \<and>
       Model_log_likelihood (add_node m z) = Model_log_likelihood m)"
proof -
  let ?x = "\<lparr>dtype = py_float, name = ''x'', index = 0,
               prior = Some (Uniform (PyInt 0) (PyInt 10)), node_type = coordinate\<rparr>"
  let ?d = "\<lparr>dtype = py_float, name = ''d'', index = 0,
               prior = Some (Normal (PyStr ''y'') (PyInt 1)), node_type = data\<rparr>"
  let ?z = "\<lparr>dtype = py_float, name = ''z'', index = 0,
               prior = Some (Uniform (PyInt 0) (PyInt 1)), node_type = coordinate\<rparr>"
  let ?m = "[(''x'', ?x), (''d'', ?d)]"
  have dn: "nodes_of_role data ?m = [?d]" by (simp add: nodes_of_role_def)
  have fd: "Node_log_density ?d =
      Inr ''logp += -0.5*log(2*M_PI) - log(1) - 0.5*pow(((d) - (y))/(1), 2);\<newline>''"
    by (simp add: Node_log_density_def Normal_log_density_def Normal_insert_parameters_def
        replace_def str_evals)
  have h1: "\<forall>n \<in> set (nodes_of_role data ?m). \<exists>f. Node_log_density n = Inr f"
    unfolding dn using fd by simp
  have h2: "(node_type ?z = prior_info \<or> node_type ?z = coordinate) \<and>
      name ?z \<notin> fst ` set ?m"
    by simp
  have a: "add_node ?m ?z = [(''x'', ?x), (''d'', ?d), (''z'', ?z)]"
    by (simp add: add_node_def)
  note t = log_likelihood_data_only [of ?m ?z]
  from t h1 obtain fs where
    fs: "map Node_log_density (nodes_of_role data ?m) = map Inr fs" and
    r0: "Model_log_likelihood ?m =
      Inr (''double logp = 0.0;\<newline>\<newline>'' @ concat fs @ ''\<newline>return logp;'')"
    by blast
  from fs have
    "fs = [''logp += -0.5*log(2*M_PI) - log(1) - 0.5*pow(((d) - (y))/(1), 2);\<newline>'']"
    unfolding dn by (auto simp: fd Cons_eq_map_conv)
  with r0 have r: "Model_log_likelihood ?m =
         Inr (''double logp = 0.0;\<newline>\<newline>'' @
              ''logp += -0.5*log(2*M_PI) - log(1) - 0.5*pow(((d) - (y))/(1), 2);\<newline>'' @
              ''\<newline>return logp;'')"
    by simp
  from t h2 have e: "Model_log_likelihood (add_node ?m ?z) = Model_log_likelihood ?m"
    by blast
  from h1 h2 r a e show ?thesis unfolding Let_def by blast
qed

text \<open>
  The theorem on registering a name again, at the registry \<open>x\<close>, \<open>y\<close>,
  \<open>w\<close> with the coordinate nodes \<open>x\<close> and \<open>w\<close>: the new node \<open>x\<close>, with a
  Normal prior, is met before \<open>w\<close>.
\<close>

theorem add_node_existing_name_witness:
  "(let old = \<lparr>dtype = py_float, name = ''x'', index = 0,
                 prior = Some (Uniform (PyInt 0) (PyInt 10)), node_type = coordinate\<rparr>;
        y = \<lparr>dtype = py_float, name = ''y'', index = 0,
               prior = Some (Deterministic ''2*x''), node_type = derived\<rparr>;
        w = \<lparr>dtype = py_float, name = ''w'', index = 0,
               prior = Some (Uniform (PyInt 0) (PyInt 1)), node_type = coordinate\<rparr>;
        new = \<lparr>dtype = py_float, name = ''x'', index = 0,
                 prior = Some (Normal (PyInt 0) (PyInt 1)), node_type = coordinate\<rparr>;
        m = [(''x'', old), (''y'', y), (''w'', w)]
    in name new \<in> fst ` set m \<and>
       (m = [] @ (name new, old) # [(''y'', y), (''w'', w)] \<and> name new \<notin> fst ` set []) \<and>
       add_node m new = [(''x'', new), (''y'', y), (''w'', w)] \<and>
       Model_from_prior (add_node m new) =
         Inr (''x = 0 + 1*rng.randn();\<newline>'' @
              ''w = 0 + (1 - (0))*rng.rand();\<newline>'' @
              ''y = 2*x;\<newline>'') \<and>
       Model_print_code (add_node m new) =
         ''out<<x<<'' @ [CHR 0x22] @ '' '' @ [CHR 0x22] @ '';\<newline>'' @
         ''out<<w<<'' @ [CHR 0x22] @ '' '' @ [CHR 0x22] @ '';\<newline>'' \<and>
       Model_description (add_node m new) =
         ''string s;\<newline>'' @
         ''s += '' @ [CHR 0x22] @ ''x, '' @ [CHR 0x22] @ '';\<newline>'' @
         ''s += '' @ [CHR 0x22] @ ''w'' @ [CHR 0x22] @ '';'' @
         ''\<newline>return s;'')"
proof -
  let ?old = "\<lparr>dtype = py_float, name = ''x'', index = 0,
                 prior = Some (Uniform (PyInt 0) (PyInt 10)), node_type = coordinate\<rparr>"
  let ?y = "\<lparr>dtype = py_float, name = ''y'', index = 0,
               prior = Some (Deterministic ''2*x''), node_type = derived\<rparr>"
  let ?w = "\<lparr>dtype = py_float, name = ''w'', index = 0,
               prior = Some (Uniform (PyInt 0) (PyInt 1)), node_type = coordinate\<rparr>"
  let ?new = "\<lparr>dtype = py_float, name = ''x'', index = 0,
                 prior = Some (Normal (PyInt 0) (PyInt 1)), node_type = coordinate\<rparr>"
  let ?ys = "[(''y'', ?y), (''w'', ?w)]"
  let ?m = "[(''x'', ?old), (''y'', ?y), (''w'', ?w)]"
  have h: "name ?new \<in> fst ` set ?m" by simp
  have g: "?m = [] @ (name ?new, ?old) # ?ys \<and> name ?new \<notin> fst ` set []" by simp
  have fn: "Node_from_prior ?new = Inr ''x = 0 + 1*rng.randn();\<newline>''"
    by (simp add: Node_from_prior_def Normal_from_prior_def Normal_insert_parameters_def
        replace_def str_evals)
  have fw: "Node_from_prior ?w = Inr ''w = 0 + (1 - (0))*rng.rand();\<newline>''"
    by (simp add: Node_from_prior_def Uniform_from_prior_def Uniform_insert_parameters_def
        replace_def str_evals)
  have fy: "Node_from_prior ?y = Inr ''y = 2*x;\<newline>''"
    by (simp add: Node_from_prior_def Deterministic_from_prior_def replace_def)
  have rc: "nodes_of_role coordinate ?ys = [?w]" by (simp add: nodes_of_role_def)
  have rd: "nodes_of_role derived ?ys = [?y]" by (simp add: nodes_of_role_def)
  have r0: "nodes_of_role t [] = []" for t by (simp add: nodes_of_role_def)
  have pe: "Model_print_code [] = []" by (simp add: Model_print_code_def)
  have py: "Model_print_code ?ys = ''out<<w<<'' @ [CHR 0x22] @ '' '' @ [CHR 0x22] @ '';\<newline>''"
    by (simp add: Model_print_code_def Node_str_def)
  have dy: "description_loop ?ys [] =
      ''s += '' @ [CHR 0x22] @ ''w, '' @ [CHR 0x22] @ '';\<newline>''"
    by (simp add: Node_str_def)
  note u = add_node_existing_name [OF h, THEN conjunct2, THEN conjunct2, rule_format,
      of "[]" ?old ?ys, OF g, unfolded Let_def]
  from u have a: "add_node ?m ?new = [(''x'', ?new), (''y'', ?y), (''w'', ?w)]" by simp
  from u have "Model_from_prior (add_node ?m ?new) =
      (case collect (map Node_from_prior
          ((nodes_of_role coordinate [] @
            (if node_type ?new = coordinate then [?new] else []) @
            nodes_of_role coordinate ?ys) @
           (nodes_of_role derived [] @
            (if node_type ?new = derived then [?new] else []) @
            nodes_of_role derived ?ys))) of
         Inl e \<Rightarrow> Inl e
       | Inr fs \<Rightarrow> Inr (concat fs))"
    by blast
  then have b: "Model_from_prior (add_node ?m ?new) =
         Inr (''x = 0 + 1*rng.randn();\<newline>'' @
              ''w = 0 + (1 - (0))*rng.rand();\<newline>'' @
              ''y = 2*x;\<newline>'')"
    unfolding rc rd r0 by (simp add: fn fw fy)
  from u have "Model_print_code (add_node ?m ?new) =
      Model_print_code [] @
      (if node_type ?new = coordinate
       then ''out<<'' @ name ?new @ ''<<'' @ [CHR 0x22] @ '' '' @ [CHR 0x22] @ '';\<newline>''
       else []) @
      Model_print_code ?ys"
    by blast
  then have c: "Model_print_code (add_node ?m ?new) =
         ''out<<x<<'' @ [CHR 0x22] @ '' '' @ [CHR 0x22] @ '';\<newline>'' @
         ''out<<w<<'' @ [CHR 0x22] @ '' '' @ [CHR 0x22] @ '';\<newline>''"
    unfolding pe py by simp
  from u have "Model_description (add_node ?m ?new) =
      drop_last 5
        (''string s;\<newline>'' @ description_loop [] [] @
         (if node_type ?new = coordinate
          then ''s += '' @ [CHR 0x22] @ name ?new @ '', '' @ [CHR 0x22] @ '';\<newline>''
          else []) @
         description_loop ?ys []) @
      ([CHR 0x22] @ '';'') @ ''\<newline>return s;''"
    by blast
  then have d: "Model_description (add_node ?m ?new) =
         ''string s;\<newline>'' @
         ''s += '' @ [CHR 0x22] @ ''x, '' @ [CHR 0x22] @ '';\<newline>'' @
         ''s += '' @ [CHR 0x22] @ ''w'' @ [CHR 0x22] @ '';'' @
         ''\<newline>return s;''"
    unfolding dy by (simp add: drop_last_def)
  from h g a b c d show ?thesis unfolding Let_def by blast
qed

text \<open>
  The theorem on calls, at the registry \<open>x\<close>, \<open>y\<close>: \<open>from_prior\<close> called
  twice.
\<close>

theorem passes_read_only_witness:
  "(let x = \<lparr>dtype = py_float, name = ''x'', index = 0,
               prior = Some (Uniform (PyInt 0) (PyInt 10)), node_type = coordinate\<rparr>;
        y = \<lparr>dtype = py_float, name = ''y'', index = 0,
               prior = Some (Deterministic ''2*x''), node_type = derived\<rparr>;
        h = [(''x'', x), (''y'', y)];
        r = Inr ''x = 0 + (10 - (0))*rng.rand();\<newline>y = 2*x;\<newline>''
    in distinct (map fst h) \<and>
       call from_prior_pass h = (r, h) \<and>
       run [from_prior_pass, from_prior_pass] h = ([r, r], h))"
proof -
  let ?x = "\<lparr>dtype = py_float, name = ''x'', index = 0,
               prior = Some (Uniform (PyInt 0) (PyInt 10)), node_type = coordinate\<rparr>"
  let ?y = "\<lparr>dtype = py_float, name = ''y'', index = 0,
               prior = Some (Deterministic ''2*x''), node_type = derived\<rparr>"
  let ?h = "[(''x'', ?x), (''y'', ?y)]"
  let ?r = "Inr ''x = 0 + (10 - (0))*rng.rand();\<newline>y = 2*x;\<newline>'' :: error + string"
  have d: "distinct (map fst ?h)" by simp
  have fx: "Node_from_prior ?x = Inr ''x = 0 + (10 - (0))*rng.rand();\<newline>''"
    by (simp add: Node_from_prior_def Uniform_from_prior_def Uniform_insert_parameters_def
        replace_def str_evals)
  have fy: "Node_from_prior ?y = Inr ''y = 2*x;\<newline>''"
    by (simp add: Node_from_prior_def Deterministic_from_prior_def replace_def)
  have p: "pass_result from_prior_pass ?h = ?r"
    by (simp add: Model_from_prior_def fx fy)
  note t = passes_read_only [of from_prior_pass ?h from_prior_pass
      "[from_prior_pass, from_prior_pass]"]
  from t d have c: "call from_prior_pass ?h = (?r, ?h)" unfolding p by blast
  from t have "run [from_prior_pass, from_prior_pass] ?h =
      (map (\<lambda>p. fst (call p ?h)) [from_prior_pass, from_prior_pass], ?h)"
    by blast
  then have "run [from_prior_pass, from_prior_pass] ?h = ([?r, ?r], ?h)"
    unfolding list.map c fst_conv .
  with d c show ?thesis unfolding Let_def by blast
qed

end
